theory Spec2Isabelle
  imports Complex_Main "HOL-Library.Sublist" "HOL-Library.AList"
begin

section \<open>Strings\<close>

text \<open>
  A Python \<open>str\<close> is a sequence of Unicode code points; \<open>len\<close> counts them. The
  model keeps that: a string is a list of code points, each a natural number. \<open>u\<close>
  turns an ASCII literal into such a list; a code point outside printable ASCII is
  written as a number (233 is e with acute accent, 10 is the line feed).
\<close>

type_synonym pystr = "nat list"

definition u :: "string \<Rightarrow> pystr" where
  "u s = map of_char s"

text \<open>
  The exceptions that the modelled code raises or lets through. \<open>ApiError\<close> stands
  for whatever exception the backend client raises.
\<close>

datatype py_error = IndexError | RuntimeError pystr | ApiError pystr

text \<open>
  \<open>str.isspace\<close> on one code point: the white space of \<open>str.strip()\<close>,
  \<open>str.split()\<close> and of \<open>\s\<close> in a regular expression over \<open>str\<close>.
\<close>

definition is_space :: "nat \<Rightarrow> bool" where
  "is_space c \<longleftrightarrow>
     (9 \<le> c \<and> c \<le> 13) \<or> (28 \<le> c \<and> c \<le> 32) \<or> c = 133 \<or> c = 160 \<or> c = 5760
     \<or> (8192 \<le> c \<and> c \<le> 8202) \<or> c = 8232 \<or> c = 8233 \<or> c = 8239 \<or> c = 8287
     \<or> c = 12288"

definition strip :: "pystr \<Rightarrow> pystr" where
  "strip s = rev (dropWhile is_space (rev (dropWhile is_space s)))"

text \<open>\<open>s.split(sep)\<close> for a separator of one code point: never an empty list.\<close>

fun split_on :: "nat \<Rightarrow> pystr \<Rightarrow> pystr list" where
  "split_on sep [] = [[]]"
| "split_on sep (c # cs) =
     (if c = sep then [] # split_on sep cs
      else (case split_on sep cs of
              [] \<Rightarrow> [[c]]
            | w # ws \<Rightarrow> (c # w) # ws))"

text \<open>The maximal runs of elements that satisfy \<open>P\<close>.\<close>

fun runs :: "('a \<Rightarrow> bool) \<Rightarrow> 'a list \<Rightarrow> 'a list list" where
  "runs P [] = []"
| "runs P (c # cs) =
     (if \<not> P c then runs P cs
      else (case cs of
              [] \<Rightarrow> [[c]]
            | d # ds \<Rightarrow>
                (if \<not> P d then [c] # runs P cs
                 else (case runs P cs of
                         [] \<Rightarrow> [[c]]
                       | w # ws \<Rightarrow> (c # w) # ws))))"

text \<open>\<open>s.split()\<close>: the maximal runs of code points that are not white space.\<close>

definition split_ws :: "pystr \<Rightarrow> pystr list" where
  "split_ws s = runs (\<lambda>c. \<not> is_space c) s"

text \<open>\<open>sep.join(parts)\<close>.\<close>

fun join :: "pystr \<Rightarrow> pystr list \<Rightarrow> pystr" where
  "join sep [] = []"
| "join sep [x] = x"
| "join sep (x # y # ys) = x @ sep @ join sep (y # ys)"

text \<open>
  The slice \<open>s[:n]\<close> for a Python integer \<open>n\<close>; a negative \<open>n\<close> is
  counted back from the end of \<open>s\<close>.
\<close>

definition slice_to :: "int \<Rightarrow> 'a list \<Rightarrow> 'a list" where
  "slice_to n s = (if 0 \<le> n then take (nat n) s else take (length s - nat (- n)) s)"

text \<open>
  \<open>str.lower()\<close> follows the Unicode case tables, which are not part of the program.
  Every function that calls it takes it as the argument \<open>lower\<close>. \<open>lower_latin1\<close>
  is \<open>str.lower()\<close> on strings whose code points are all below 256; it serves where
  the code is evaluated on such a string.
\<close>

definition lower_latin1 :: "pystr \<Rightarrow> pystr" where
  "lower_latin1 s =
     map (\<lambda>c. if (65 \<le> c \<and> c \<le> 90) \<or> (192 \<le> c \<and> c \<le> 222 \<and> c \<noteq> 215) then c + 32 else c) s"

section \<open>Conversation store\<close>

text \<open>
  One turn is the dict built by \<open>add_to_chat_history\<close>. The fields of
  \<open>st.session_state\<close> that the store reads or writes form the record \<open>session\<close>,
  together with the history file on disk (\<open>None\<close> while the file does not exist) and
  the warnings and errors shown to the user.
\<close>

record entry =
  e_timestamp :: pystr
  e_conversation_id :: pystr
  e_question :: pystr
  e_answer :: pystr

record email_entry =
  email_timestamp :: pystr
  email_type :: pystr
  email_content :: pystr

datatype lang = FR | EN | TN

record session =
  session_id :: pystr
  language :: lang
  chat_history :: "entry list"
  current_conversation :: "entry list"
  conversation_id :: pystr
  email_history :: "email_entry list"
  current_email :: "pystr option"
  chat_file :: "entry list option"
  shown_warnings :: "pystr list"
  shown_errors :: "pystr list"

text \<open>
  \<open>save_chat_history\<close> writes the whole log; an \<open>IOError\<close> of the write is caught
  and shown as a warning. Whether the write succeeds is decided by the file system, so
  it is the argument \<open>io_ok\<close>. Only these two outcomes are modelled: an exception of
  another class (a question that cannot be encoded as UTF-8) would leave the function
  after the lists in memory have been updated, and is not covered.
\<close>

definition save_chat_history :: "bool \<Rightarrow> session \<Rightarrow> session" where
  "save_chat_history io_ok s =
     (if io_ok then s\<lparr>chat_file := Some (chat_history s)\<rparr>
      else s\<lparr>shown_warnings := shown_warnings s @ [u ''Could not save chat history.'']\<rparr>)"

text \<open>\<open>now_iso\<close> is the value of \<open>datetime.now().isoformat()\<close> at the call.\<close>

definition add_to_chat_history :: "pystr \<Rightarrow> bool \<Rightarrow> pystr \<Rightarrow> pystr \<Rightarrow> session \<Rightarrow> session" where
  "add_to_chat_history now_iso io_ok question answer s =
     (let e = \<lparr>e_timestamp = now_iso, e_conversation_id = conversation_id s,
                e_question = question, e_answer = answer\<rparr>;
          s1 = s\<lparr>current_conversation := current_conversation s @ [e]\<rparr>;
          s2 = s1\<lparr>chat_history := chat_history s1 @ [e]\<rparr>
      in save_chat_history io_ok s2)"

text \<open>\<open>now_id\<close> is the value of \<open>datetime.now().strftime("%Y%m%d_%H%M%S")\<close> at the call.\<close>

definition start_new_conversation :: "pystr \<Rightarrow> session \<Rightarrow> session" where
  "start_new_conversation now_id s =
     s\<lparr>conversation_id := now_id, current_conversation := []\<rparr>"

definition clear_all_history :: "bool \<Rightarrow> session \<Rightarrow> session" where
  "clear_all_history io_ok s =
     save_chat_history io_ok (s\<lparr>chat_history := [], current_conversation := []\<rparr>)"

definition delete_conversation_by_id :: "bool \<Rightarrow> pystr \<Rightarrow> session \<Rightarrow> session" where
  "delete_conversation_by_id io_ok cid s =
     (let s1 = s\<lparr>chat_history := filter (\<lambda>e. e_conversation_id e \<noteq> cid) (chat_history s)\<rparr>;
          s2 = (if conversation_id s1 = cid then s1\<lparr>current_conversation := []\<rparr> else s1)
      in save_chat_history io_ok s2)"

text \<open>
  \<open>init_session_state\<close> on a fresh session: the history is what \<open>load_chat_history\<close>
  and \<open>load_email_history\<close> read from disk, the display subset is empty, the
  language is French.
\<close>

definition init_session_state ::
  "pystr \<Rightarrow> entry list \<Rightarrow> email_entry list \<Rightarrow> entry list option \<Rightarrow> pystr \<Rightarrow> session" where
  "init_session_state sid loaded loaded_emails file now_id =
     \<lparr>session_id = sid, language = FR, chat_history = loaded, current_conversation = [],
      conversation_id = now_id, email_history = loaded_emails, current_email = None,
      chat_file = file, shown_warnings = [], shown_errors = []\<rparr>"

text \<open>The four store operations as commands, and a run of a sequence of them.\<close>

datatype store_op =
    Append pystr bool pystr pystr
  | StartNew pystr
  | DeleteConversation bool pystr
  | ClearAll bool

fun apply_store_op :: "session \<Rightarrow> store_op \<Rightarrow> session" where
  "apply_store_op s (Append now_iso io_ok q a) = add_to_chat_history now_iso io_ok q a s"
| "apply_store_op s (StartNew now_id) = start_new_conversation now_id s"
| "apply_store_op s (DeleteConversation io_ok cid) = delete_conversation_by_id io_ok cid s"
| "apply_store_op s (ClearAll io_ok) = clear_all_history io_ok s"

definition run_store_ops :: "store_op list \<Rightarrow> session \<Rightarrow> session" where
  "run_store_ops ops s = foldl apply_store_op s ops"

text \<open>
  The invariant that carries the induction: every displayed turn belongs to the active
  conversation and is in the durable history.
\<close>

definition display_inv :: "session \<Rightarrow> bool" where
  "display_inv s \<longleftrightarrow>
     list_all (\<lambda>e. e_conversation_id e = conversation_id s \<and> e \<in> set (chat_history s))
       (current_conversation s)"

section \<open>Localised texts\<close>

text \<open>
  \<open>LANGUAGES\<close> cut down to the keys that the modelled functions look up.
  \<open>get_text\<close> returns the key itself when the table of the language has no such key,
  as \<open>dict.get(key, key)\<close> does; the French table has no \<open>rate_limit\<close>.
\<close>

definition lang_code :: "lang \<Rightarrow> pystr" where
  "lang_code l = (case l of FR \<Rightarrow> u ''FR'' | EN \<Rightarrow> u ''EN'' | TN \<Rightarrow> u ''TN'')"

definition LANGUAGES :: "lang \<Rightarrow> (pystr \<times> pystr) list" where
  "LANGUAGES l =
     (case l of
        FR \<Rightarrow>
      [(u ''error_docs'',
        u ''Fichier documents.txt introuvable.''),
       (u ''not_found'',
        u ''Cette information n'' @ [39] @ u ''est pas disponible dans les documents '' @
        u ''officiels.'')]
      | EN \<Rightarrow>
      [(u ''error_docs'',
        u ''documents.txt file not found.''),
       (u ''not_found'',
        u ''This information is not available in the official documents.''),
       (u ''rate_limit'',
        [9201, 65039] @ u '' Rate limit reached. Please wait.'')]
      | TN \<Rightarrow>
      [(u ''error_docs'',
        u ''Fichier documents.txt mahouch mawjoud.''),
       (u ''not_found'',
        u ''Hedhi el ma3louma mawjoudech fel documents er-rasmiya.''),
       (u ''rate_limit'',
        [9201, 65039] @ u '' Estanna chwaya, wselt lel limite.'')])"

definition get_text :: "lang \<Rightarrow> pystr \<Rightarrow> pystr" where
  "get_text l key = (case map_of (LANGUAGES l) key of Some text \<Rightarrow> text | None \<Rightarrow> key)"

section \<open>Rate limiter\<close>

text \<open>
  \<open>_rate_limit_storage\<close> is a \<open>defaultdict(list)\<close>: every session id has a list of
  timestamps, empty until the first call. \<open>time.time()\<close> is the argument \<open>now\<close>;
  timestamps are real numbers; \<open>ui_lang\<close> is \<open>st.session_state.language\<close>.
  When the wrapper denies, it shows the warning \<open>get_text("rate_limit")\<close> and returns
  \<open>None\<close>: that is \<open>Denied\<close> with the text of the warning. Otherwise it returns
  what the wrapped function returns.
\<close>

definition RATE_LIMIT_REQUESTS :: nat where
  "RATE_LIMIT_REQUESTS = 10"

definition RATE_LIMIT_WINDOW_SECONDS :: real where
  "RATE_LIMIT_WINDOW_SECONDS = 60"

datatype 'b gated = Denied pystr | Allowed 'b

definition rate_limit ::
  "('a \<Rightarrow> 'b) \<Rightarrow> real \<Rightarrow> pystr \<Rightarrow> lang \<Rightarrow> (pystr \<Rightarrow> real list) \<Rightarrow> 'a
     \<Rightarrow> 'b gated \<times> (pystr \<Rightarrow> real list)" where
  "rate_limit func now user_id ui_lang storage args =
     (let storage1 = storage(user_id := filter (\<lambda>ts. now - ts < RATE_LIMIT_WINDOW_SECONDS) (storage user_id))
      in if length (storage1 user_id) \<ge> RATE_LIMIT_REQUESTS then (Denied (get_text ui_lang (u ''rate_limit'')), storage1)
         else (Allowed (func args), storage1(user_id := storage1 user_id @ [now])))"

text \<open>A session calling the gated function at successive instants.\<close>

fun gated_calls ::
  "('a \<Rightarrow> 'b) \<Rightarrow> pystr \<Rightarrow> lang \<Rightarrow> 'a \<Rightarrow> real list \<Rightarrow> (pystr \<Rightarrow> real list)
     \<Rightarrow> 'b gated list \<times> (pystr \<Rightarrow> real list)" where
  "gated_calls func user_id ui_lang args [] storage = ([], storage)"
| "gated_calls func user_id ui_lang args (now # later) storage =
     (let (r, storage1) = rate_limit func now user_id ui_lang storage args;
          (rs, storage2) = gated_calls func user_id ui_lang args later storage1
      in (r # rs, storage2))"

section \<open>Context selection\<close>

text \<open>
  \<open>keyword_sections\<close> is the dict of \<open>extract_relevant_sections\<close>, in the order it
  is written: a tuple of keywords and the label it selects.
\<close>

definition keyword_sections :: "(pystr list \<times> pystr) list" where
  "keyword_sections =
     [
      ([u ''inscription'', u ''inscri'', u ''r'' @ [233] @ u ''inscription'', u ''enroll'', u ''documents obligatoires'', u ''frais inscription''],
       u ''SECTION 1''),
      ([u ''certificat'', u ''attestation'', u ''relev'' @ [233], u ''notes'', u ''scolarit'' @ [233], u ''certificate''],
       u ''SECTION 2''),
      ([u ''bourse'', u ''aide financi'' @ [232] @ u ''re'', u ''pr'' @ [234] @ u ''t'', u ''scholarship'', u ''financial aid'', u ''mobilit'' @ [233]],
       u ''SECTION 3''),
      ([u ''stage'', u ''internship'', u ''convention'', u ''entreprise'', u ''rapport'', u ''soutenance''],
       u ''SECTION 4''),
      ([u ''absence'', u ''justification'', u ''assiduit'' @ [233], u ''pr'' @ [233] @ u ''sence'', u ''retard''],
       u ''SECTION 5''),
      ([u ''examen'', u ''rattrapage'', [233] @ u ''valuation'', u ''test'', u ''exam'', u ''compensation'', u ''note'', u ''fraude''],
       u ''SECTION 6''),
      ([u ''paiement'', u ''frais'', u ''tarif'', u ''remboursement'', u ''payment'', u ''fee'', [233] @ u ''ch'' @ [233] @ u ''ance''],
       u ''SECTION 7''),
      ([u ''calendrier'', u ''date'', u ''semestre'', u ''vacances'', u ''calendar'', u ''rentr'' @ [233] @ u ''e''],
       u ''SECTION 8''),
      ([u ''r'' @ [232] @ u ''glement'', u ''discipline'', u ''sanction'', u ''interdiction'', u ''droits'', u ''devoirs'', u ''regulation''],
       u ''SECTION 9''),
      ([u ''biblioth'' @ [232] @ u ''que'', u ''restaurant'', u ''cantine'', u ''logement'', u ''r'' @ [233] @ u ''sidence'', u ''sport'', u ''library'', u ''service''],
       u ''SECTION 10''),
      ([u ''contact'', u ''email'', u ''t'' @ [233] @ u ''l'' @ [233] @ u ''phone'', u ''urgence'', u ''service'', u ''bureau'', u ''scolarit'' @ [233]],
       u ''SECTION 11'')]"

text \<open>
  \<open>relevant_sections\<close> lists the elements of the set the first loop builds, each
  once, in the order the labels are added, with the three default labels when no
  keyword occurs in the question. The Python set itself has no such order: the order
  in which the second loop visits it is treated below, at \<open>extract_with_labels\<close>.
  \<open>kw in question_lower\<close> is the test for a contiguous sublist.
\<close>

definition relevant_sections :: "pystr \<Rightarrow> pystr list" where
  "relevant_sections question_lower =
     (let found = remdups (map snd
            (filter (\<lambda>(keywords, section). list_ex (\<lambda>kw. sublist kw question_lower) keywords)
               keyword_sections))
      in if found = [] then [u ''SECTION 1'', u ''SECTION 2'', u ''SECTION 9''] else found)"

text \<open>
  The label of a header line: the text before the first colon, stripped; without a
  colon, the first two words of the line, and \<open>IndexError\<close> when there is no second
  word.
\<close>

definition section_label :: "pystr \<Rightarrow> py_error + pystr" where
  "section_label line =
     (if 58 \<in> set line then Inr (strip (hd (split_on 58 line)))
      else (case split_ws line of
              w0 # w1 # _ \<Rightarrow> Inr (w0 @ u '' '' @ w1)
            | _ \<Rightarrow> Inl IndexError))"

text \<open>
  The loop over the lines of the corpus. \<open>current_section\<close> is \<open>None\<close> before the
  first header; a Python string is true when it is not empty. \<open>sections_dict\<close> is a
  dict: an association list in insertion order, where assigning to a key that is there
  replaces its value in place.
\<close>

definition truthy :: "pystr option \<Rightarrow> bool" where
  "truthy s = (case s of None \<Rightarrow> False | Some t \<Rightarrow> t \<noteq> [])"

fun parse_lines ::
  "pystr list \<Rightarrow> pystr option \<Rightarrow> pystr list \<Rightarrow> (pystr \<times> pystr) list
     \<Rightarrow> py_error + (pystr option \<times> pystr list \<times> (pystr \<times> pystr) list)" where
  "parse_lines [] current_section current_content sections_dict =
     Inr (current_section, current_content, sections_dict)"
| "parse_lines (line # rest) current_section current_content sections_dict =
     (if prefix (u ''SECTION '') line then
        (let saved = (if truthy current_section
                      then AList.update (the current_section) (join [10] current_content) sections_dict
                      else sections_dict)
         in case section_label line of
              Inl e \<Rightarrow> Inl e
            | Inr label \<Rightarrow> parse_lines rest (Some label) [line] saved)
      else if truthy current_section then
        parse_lines rest current_section (current_content @ [line]) sections_dict
      else parse_lines rest current_section current_content sections_dict)"

definition parse_sections :: "pystr \<Rightarrow> py_error + (pystr \<times> pystr) list" where
  "parse_sections full_context =
     (case parse_lines (split_on 10 full_context) None [] [] of
        Inl e \<Rightarrow> Inl e
      | Inr (current_section, current_content, sections_dict) \<Rightarrow>
          Inr (if truthy current_section \<and> current_content \<noteq> []
               then AList.update (the current_section) (join [10] current_content) sections_dict
               else sections_dict))"

text \<open>
  The inner loop for one relevant label, over the items of \<open>sections_dict\<close>. The state
  is \<open>extracted\<close> and \<open>total_chars\<close>. The \<open>else\<close> branch ends this loop with
  \<open>break\<close>; it does not add to \<open>total_chars\<close>.
\<close>

fun scan_sections ::
  "pystr \<Rightarrow> int \<Rightarrow> (pystr \<times> pystr) list \<Rightarrow> pystr list \<times> int \<Rightarrow> pystr list \<times> int" where
  "scan_sections section_key max_chars [] (extracted, total_chars) = (extracted, total_chars)"
| "scan_sections section_key max_chars ((doc_section, content) # rest) (extracted, total_chars) =
     (if sublist section_key doc_section then
        (if total_chars + int (length content) < max_chars then
           scan_sections section_key max_chars rest
             (extracted @ [content], total_chars + int (length content))
         else
           (let remaining = max_chars - total_chars
            in if remaining > 500
               then (extracted @ [slice_to remaining content @ [10] @ u ''...''], total_chars)
               else (extracted, total_chars)))
      else scan_sections section_key max_chars rest (extracted, total_chars))"

text \<open>
  Python iterates over a set of strings in an order that depends on the hash seed of the
  process. \<open>extract_with_labels\<close> is the function from the point where the set is
  built, for the iteration order \<open>labels\<close>: any list of the elements of the set,
  each once, is a possible order. \<open>extract_relevant_sections\<close> is the run in which
  the labels are visited in the order they were added; a property that depends on the
  order is stated for \<open>extract_with_labels\<close> and every order of the labels.
\<close>

definition extract_with_labels :: "pystr list \<Rightarrow> pystr \<Rightarrow> int \<Rightarrow> py_error + pystr" where
  "extract_with_labels labels full_context max_chars =
     (case parse_sections full_context of
        Inl e \<Rightarrow> Inl e
      | Inr sections_dict \<Rightarrow>
          (let extracted = fst (foldl (\<lambda>acc section_key.
                                  scan_sections section_key max_chars sections_dict acc)
                                ([], 0) labels)
           in if extracted = [] then Inr (slice_to max_chars full_context)
              else (let result = join [10, 10] extracted
                    in Inr (if result \<noteq> [] then result else slice_to max_chars full_context))))"

definition extract_relevant_sections ::
  "(pystr \<Rightarrow> pystr) \<Rightarrow> pystr \<Rightarrow> pystr \<Rightarrow> int \<Rightarrow> py_error + pystr" where
  "extract_relevant_sections lower full_context user_question max_chars =
     extract_with_labels (relevant_sections (lower user_question)) full_context max_chars"

text \<open>
  The number of characters of the sections whose label contains \<open>section_key\<close>:
  what the inner loop adds to \<open>total_chars\<close> when it never reaches its \<open>else\<close>
  branch.
\<close>

definition matched_chars :: "pystr \<Rightarrow> (pystr \<times> pystr) list \<Rightarrow> int" where
  "matched_chars section_key sections_dict =
     sum_list (map (\<lambda>(doc_section, content). int (length content))
       (filter (\<lambda>(doc_section, content). sublist section_key doc_section) sections_dict))"

section \<open>Quick replies\<close>

text \<open>\<open>re.sub(r"\s+", " ", text)\<close>: every run of white space becomes one space.\<close>

fun collapse_ws :: "pystr \<Rightarrow> pystr" where
  "collapse_ws [] = []"
| "collapse_ws [c] = (if is_space c then [32] else [c])"
| "collapse_ws (c # d # cs) =
     (if is_space c then (if is_space d then collapse_ws (d # cs) else 32 # collapse_ws (d # cs))
      else c # collapse_ws (d # cs))"

text \<open>\<open>re.findall(r"[a-z0-9']+", text)\<close>.\<close>

definition is_token_char :: "nat \<Rightarrow> bool" where
  "is_token_char c \<longleftrightarrow> (97 \<le> c \<and> c \<le> 122) \<or> (48 \<le> c \<and> c \<le> 57) \<or> c = 39"

definition find_tokens :: "pystr \<Rightarrow> pystr list" where
  "find_tokens text = runs is_token_char text"

definition greetings :: "pystr list" where
  "greetings = [u ''salut'', u ''bonjour'', u ''bonsoir'', u ''hello'', u ''hi'', u ''hey'', u ''salam'', u ''slm'', u ''aslema'', u ''asslema'', u ''ahla'', u ''marhba'', u ''mar7ba'']"

definition thanks :: "pystr list" where
  "thanks = [u ''merci'', u ''thanks'', u ''thank you'', u ''chokran'', u ''choukrane'', u ''bravo'']"

text \<open>\<open>bool(tokens & greetings) or text in greetings\<close>, and the same for the thanks.\<close>

definition is_greeting :: "pystr \<Rightarrow> bool" where
  "is_greeting text \<longleftrightarrow>
     list_ex (\<lambda>token. token \<in> set greetings) (find_tokens text) \<or> text \<in> set greetings"

definition is_thanks :: "pystr \<Rightarrow> bool" where
  "is_thanks text \<longleftrightarrow>
     list_ex (\<lambda>token. token \<in> set thanks) (find_tokens text) \<or> text \<in> set thanks"

definition greeting_TN :: pystr where
  "greeting_TN =
     u ''Asslema '' @ [128075] @ u '' Ahlan bik! N'' @ [1580, 1605] @ u '' n3awnek fi les infos mta3 l-jam3a. '' @
     u ''Exemples: '' @ [96] @ u ''nheb na3ref noteti'' @ [96] @ u '', '' @ [96] @ u ''kifech na3mel inscription'' @ [96] @ u '', '' @
     [96] @ u ''chnowa documents mta3 bourse'' @ [96] @ u '' '' @ [128578]"

definition greeting_EN :: pystr where
  "greeting_EN =
     u ''Hi '' @ [128075] @ u '' Welcome! I can help with university info. Try: '' @ [96] @ u ''I want to '' @
     u ''check my grades'' @ [96] @ u '', '' @ [96] @ u ''how to enroll'' @ [96] @ u '', '' @ [96] @ u ''scholarship documents'' @ [96] @ u '' '' @ [128578]"

definition greeting_FR :: pystr where
  "greeting_FR =
     u ''Salut '' @ [128075] @ u '' Je peux t'' @ [8217] @ u ''aider avec les infos universitaires. '' @
     u ''Exemples: '' @ [96] @ u ''je veux conna'' @ [238] @ u ''tre mes notes'' @ [96] @ u '', '' @ [96] @ u ''comment faire '' @
     u ''l'' @ [39] @ u ''inscription'' @ [96] @ u '', '' @ [96] @ u ''documents pour la bourse'' @ [96] @ u '' '' @ [128578]"

definition thanks_TN :: pystr where
  "thanks_TN =
     u ''3la rassi '' @ [128522] @ u '' Ken theb, n'' @ [1580, 1605] @ u '' n3awnek zeda b inscription, notes, '' @
     u ''bourse, stage...''"

definition thanks_EN :: pystr where
  "thanks_EN =
     u ''You'' @ [39] @ u ''re welcome '' @ [128522] @ u '' If you want, I can also help with enrollment, '' @
     u ''grades, scholarships, or internships.''"

definition thanks_FR :: pystr where
  "thanks_FR =
     u ''Avec plaisir '' @ [128522] @ u '' Si tu veux, je peux aussi t'' @ [8217] @ u ''aider pour '' @
     u ''inscription, notes, bourse ou stage.''"

definition greeting_reply :: "pystr \<Rightarrow> pystr" where
  "greeting_reply language' =
     (if language' = u ''TN'' then greeting_TN
      else if language' = u ''EN'' then greeting_EN
      else greeting_FR)"

definition thanks_reply :: "pystr \<Rightarrow> pystr" where
  "thanks_reply language' =
     (if language' = u ''TN'' then thanks_TN
      else if language' = u ''EN'' then thanks_EN
      else thanks_FR)"

definition quick_conversation_reply :: "(pystr \<Rightarrow> pystr) \<Rightarrow> pystr \<Rightarrow> pystr \<Rightarrow> pystr option" where
  "quick_conversation_reply lower question language' =
     (let text = collapse_ws (lower (strip question))
      in if text = [] then None
         else if is_greeting text then Some (greeting_reply language')
         else if is_thanks text then Some (thanks_reply language')
         else None)"

section \<open>Model invocation\<close>

text \<open>
  A message is a role and a content. A completion is the list of its choices, each the
  \<open>message.content\<close> of the choice, which may be \<open>None\<close>. The backend client
  is a function of its own state, the model name, the temperature and the messages;
  it raises or returns a completion, and moves to a new state.
\<close>

type_synonym message = "pystr \<times> pystr"

datatype completion = Completion "pystr option list"

type_synonym 's client = "'s \<Rightarrow> pystr \<Rightarrow> real \<Rightarrow> message list \<Rightarrow> (py_error + completion) \<times> 's"

definition MODEL_CANDIDATES :: "pystr list" where
  "MODEL_CANDIDATES = [u ''llama-3.1-8b-instant'', u ''llama-3.3-70b-versatile'']"

definition QA_TEMPERATURE :: real where
  "QA_TEMPERATURE = 2 / 10"

text \<open>
  \<open>(completion.choices[0].message.content or "").strip()\<close>; indexing an empty list
  of choices raises \<open>IndexError\<close>.
\<close>

definition completion_text :: "completion \<Rightarrow> py_error + pystr" where
  "completion_text c =
     (case c of
        Completion [] \<Rightarrow> Inl IndexError
      | Completion (content # _) \<Rightarrow> Inr (strip (case content of None \<Rightarrow> [] | Some t \<Rightarrow> t)))"

text \<open>
  One pass of the \<open>try\<close> block for one model name: the request and the reading of
  the answer, with every exception caught.
\<close>

definition attempt ::
  "'s client \<Rightarrow> real \<Rightarrow> message list \<Rightarrow> pystr \<Rightarrow> 's \<Rightarrow> (py_error + pystr) \<times> 's" where
  "attempt client temperature messages model_name s =
     (case client s model_name temperature messages of
        (Inl error, s') \<Rightarrow> (Inl error, s')
      | (Inr completion, s') \<Rightarrow> (completion_text completion, s'))"

text \<open>
  The loop over the candidates with \<open>last_error\<close>, then the two \<open>raise\<close> statements
  after it. \<open>candidates\<close> is the value of \<open>APP_CONFIG["MODEL_CANDIDATES"]\<close> at the
  call.
\<close>

fun fallback_loop ::
  "'s client \<Rightarrow> real \<Rightarrow> message list \<Rightarrow> pystr list \<Rightarrow> py_error option \<Rightarrow> 's
     \<Rightarrow> (py_error + pystr) \<times> 's" where
  "fallback_loop client temperature messages [] last_error s =
     (case last_error of
        Some error \<Rightarrow> (Inl error, s)
      | None \<Rightarrow> (Inl (RuntimeError (u ''No Groq models available.'')), s))"
| "fallback_loop client temperature messages (model_name # rest) last_error s =
     (case attempt client temperature messages model_name s of
        (Inr text, s') \<Rightarrow> (Inr text, s')
      | (Inl error, s') \<Rightarrow> fallback_loop client temperature messages rest (Some error) s')"

definition chat_completion_with_fallback ::
  "pystr list \<Rightarrow> 's client \<Rightarrow> real \<Rightarrow> message list \<Rightarrow> 's \<Rightarrow> (py_error + pystr) \<times> 's" where
  "chat_completion_with_fallback candidates client temperature messages s =
     fallback_loop client temperature messages candidates None s"

text \<open>
  A client that keeps a record of the requests it receives: the state carries a clock,
  which the surroundings set, and the list of requests made so far, each with the
  clock reading and the model name.
\<close>

definition recorded :: "'s client \<Rightarrow> ('s \<times> real \<times> (real \<times> pystr) list) client" where
  "recorded client = (\<lambda>(s, clock, reqs) model_name temperature messages.
     (case client s model_name temperature messages of
        (r, s') \<Rightarrow> (r, (s', clock, reqs @ [(clock, model_name)]))))"

definition at_time :: "real \<Rightarrow> 's \<times> real \<times> (real \<times> pystr) list \<Rightarrow> 's \<times> real \<times> (real \<times> pystr) list" where
  "at_time t b = (case b of (s, clock, reqs) \<Rightarrow> (s, t, reqs))"

definition requests :: "'s \<times> real \<times> (real \<times> pystr) list \<Rightarrow> (real \<times> pystr) list" where
  "requests b = snd (snd b)"

text \<open>
  What each candidate answers when all of them are asked in turn, starting in state
  \<open>s\<close>: the reference against which the loop is compared.
\<close>

fun outcomes ::
  "'s client \<Rightarrow> real \<Rightarrow> message list \<Rightarrow> pystr list \<Rightarrow> 's \<Rightarrow> (py_error + pystr) list" where
  "outcomes client temperature messages [] s = []"
| "outcomes client temperature messages (model_name # rest) s =
     (case attempt client temperature messages model_name s of
        (r, s') \<Rightarrow> r # outcomes client temperature messages rest s')"

section \<open>Answering a question\<close>

definition system_prompt :: "pystr \<Rightarrow> pystr \<Rightarrow> pystr" where
  "system_prompt lang fallback_msg =
     (if lang = u ''TN'' then
      u ''Enti UniHelp, msa3ed jami3i barcha wadoud w fi el khedma '' @
      u ''(logha: '' @
      lang @
      u ''). Tsa3ed el tolba fi sou2elethom el jami3iya b tari9a tabi3iya '' @
      u ''w wadouda. Jaweb b tari9a wedha w mafhouma. Esta3mel emojis ki '' @
      u ''ylazem '' @ [128522] @ u ''. E3tamed 3al context er-rasmi bech ta3ti ma3loumet '' @
      u ''sa7i7a. Ken tetdhaker 7ajet 9dima mel conversation, matredhech '' @
      u ''bech tarbethom. Ken el ma3louma mawjoudech fel context, 9oul b '' @
      u ''el adab: '' @ [34] @
      fallback_msg @
      [34] @ u '' Koun mo5taser ama kemel fel ijeba.''
      else if lang = u ''EN'' then
      u ''You are UniHelp, a friendly and helpful university assistant '' @
      u ''(language: '' @
      lang @
      u ''). You help students with their university questions in a '' @
      u ''conversational and natural way. Answer warmly, clearly and '' @
      u ''accessibly. Use emojis when appropriate '' @ [128522] @ u ''. Base yourself ONLY '' @
      u ''on the official context provided to give accurate information. '' @
      u ''If you remember previous exchanges in the conversation, don'' @ [39] @ u ''t '' @
      u ''hesitate to make the connection. If the information is not in '' @
      u ''the context, politely say: '' @ [34] @
      fallback_msg @
      [34] @ u '' Be concise but complete in your answers.''
      else
      u ''Tu es UniHelp, un assistant universitaire sympathique et '' @
      u ''serviable (langue: '' @
      lang @
      u ''). Tu aides les '' @ [233] @ u ''tudiants avec leurs questions universitaires '' @
      u ''de mani'' @ [232] @ u ''re conversationnelle et naturelle. R'' @ [233] @ u ''ponds de fa'' @ [231] @ u ''on '' @
      u ''chaleureuse, claire et accessible. Utilise des emojis quand '' @
      u ''c'' @ [39] @ u ''est appropri'' @ [233] @ u '' '' @ [128522] @ u ''. Base-toi UNIQUEMENT sur le contexte officiel '' @
      u ''fourni pour donner des informations pr'' @ [233] @ u ''cises. Si tu te souviens '' @
      u ''d'' @ [39, 233] @ u ''changes pr'' @ [233] @ u ''c'' @ [233] @ u ''dents dans la conversation, n'' @ [39] @ u ''h'' @ [233] @ u ''site pas '' @ [224] @ u '' '' @
      u ''faire le lien. Si l'' @ [39] @ u ''information n'' @ [39] @ u ''est pas dans le contexte, dis '' @
      u ''poliment: '' @ [34] @
      fallback_msg @
      [34] @ u '' Sois concis mais complet dans tes r'' @ [233] @ u ''ponses.'')"

definition user_prompt :: "pystr \<Rightarrow> pystr \<Rightarrow> pystr" where
  "user_prompt relevant_context user_question =
      u ''Context universitaire:'' @ [10] @
      relevant_context @
      [10, 10] @ u ''Question: '' @
      user_question"

text \<open>
  \<open>ask_rag_question\<close>. \<open>ui_lang\<close> is \<open>st.session_state.language\<close>, which
  \<open>get_text\<close> reads; \<open>conversation_history\<close> is the list of earlier messages, empty
  for \<open>None\<close>. An exception of the context selection or of the model invocation leaves
  the function.
\<close>

definition ask_rag_question ::
  "(pystr \<Rightarrow> pystr) \<Rightarrow> lang \<Rightarrow> 's client \<Rightarrow> pystr \<Rightarrow> pystr \<Rightarrow> pystr \<Rightarrow> message list \<Rightarrow> 's
     \<Rightarrow> (py_error + pystr) \<times> 's" where
  "ask_rag_question lower ui_lang client documents_context user_question lang
       conversation_history s =
     (let quick_reply = quick_conversation_reply lower user_question lang
      in if truthy quick_reply then (Inr (the quick_reply), s)
         else
           (let fallback_msg = get_text ui_lang (u ''not_found'')
            in case extract_relevant_sections lower documents_context user_question 4000 of
                 Inl error \<Rightarrow> (Inl error, s)
               | Inr relevant_context \<Rightarrow>
                   (let messages =
                          [(u ''system'', system_prompt lang fallback_msg)]
                          @ drop (length conversation_history - 6) conversation_history
                          @ [(u ''user'', user_prompt relevant_context user_question)]
                    in case chat_completion_with_fallback MODEL_CANDIDATES client
                              QA_TEMPERATURE messages s of
                         (Inl error, s') \<Rightarrow> (Inl error, s')
                       | (Inr answer, s') \<Rightarrow>
                           (Inr (if answer \<noteq> [] then answer else fallback_msg), s'))))"

section \<open>Input validation\<close>

definition MAX_QUESTION_LENGTH :: nat where
  "MAX_QUESTION_LENGTH = 500"

text \<open>
  \<open>re.search(r'(.)\1{10,}', question)\<close>: somewhere in the question a character that
  is not a line feed is followed by ten more copies of itself.
\<close>

fun spam_pattern :: "pystr \<Rightarrow> bool" where
  "spam_pattern [] = False"
| "spam_pattern (c # cs) = ((c \<noteq> 10 \<and> take 10 cs = replicate 10 c) \<or> spam_pattern cs)"

definition validate_question :: "pystr \<Rightarrow> bool" where
  "validate_question question =
     (if question = [] \<or> length (strip question) < 3 then False
      else if length question > MAX_QUESTION_LENGTH then False
      else if spam_pattern question then False
      else True)"

section \<open>The question handler of the page\<close>

text \<open>
  The text of an exception in \<open>f"... Error: {error}"\<close>.
\<close>

definition error_str :: "py_error \<Rightarrow> pystr" where
  "error_str e =
     (case e of
        IndexError \<Rightarrow> u ''list index out of range''
      | RuntimeError msg \<Rightarrow> msg
      | ApiError msg \<Rightarrow> msg)"

text \<open>
  The block of \<open>main\<close> that runs when the chat input returns \<open>question\<close>; an empty
  \<open>question\<close> stands for no input. \<open>documents_context\<close> is the loaded corpus,
  \<open>now_iso\<close> the time stamp for the new turn, \<open>io_ok\<close> whether the history file can
  be written, \<open>b\<close> the state of the backend. The history given to
  \<open>ask_rag_question\<close> is built from the last three displayed turns. Every exception
  is caught and shown.
\<close>

definition conv_history_of :: "entry list \<Rightarrow> message list" where
  "conv_history_of current =
     concat (map (\<lambda>e. [(u ''user'', e_question e), (u ''assistant'', e_answer e)])
               (drop (length current - 3) current))"

definition handle_question ::
  "(pystr \<Rightarrow> pystr) \<Rightarrow> 's client \<Rightarrow> pystr \<Rightarrow> pystr \<Rightarrow> pystr \<Rightarrow> bool \<Rightarrow> session \<times> 's
     \<Rightarrow> session \<times> 's" where
  "handle_question lower client documents_context question now_iso io_ok sb =
     (case sb of (s, b) \<Rightarrow>
        if question = [] then (s, b)
        else if documents_context = [] then
          (s\<lparr>shown_errors := shown_errors s
                @ [[9888, 65039] @ u '' '' @ get_text (language s) (u ''error_docs'')]\<rparr>, b)
        else
          (case ask_rag_question lower (language s) client documents_context (strip question)
                  (lang_code (language s)) (conv_history_of (current_conversation s)) b of
             (Inl error, b') \<Rightarrow>
               (s\<lparr>shown_errors := shown_errors s
                     @ [[10060] @ u '' Error: '' @ error_str error]\<rparr>, b')
           | (Inr rag_answer, b') \<Rightarrow>
               (add_to_chat_history now_iso io_ok (strip question) rag_answer s, b')))"

text \<open>
  A session in which questions arrive one after the other: each with the instant at
  which it is asked, at which the backend's clock is set.
\<close>

fun ask_all ::
  "(pystr \<Rightarrow> pystr) \<Rightarrow> 's client \<Rightarrow> pystr \<Rightarrow> bool \<Rightarrow> (real \<times> pystr \<times> pystr) list
     \<Rightarrow> session \<times> ('s \<times> real \<times> (real \<times> pystr) list)
     \<Rightarrow> session \<times> ('s \<times> real \<times> (real \<times> pystr) list)" where
  "ask_all lower client documents_context io_ok [] sb = sb"
| "ask_all lower client documents_context io_ok ((t, now_iso, question) # later) sb =
     ask_all lower client documents_context io_ok later
       (handle_question lower (recorded client) documents_context question now_iso io_ok
          (fst sb, at_time t (snd sb)))"

section \<open>Backends for the scenarios\<close>

text \<open>
  Two backends without a state of their own. With \<open>first_fails\<close> the first model of
  the shipped configuration is not available and every other model answers
  \<open>B\<close> with a blank on each side; \<open>always_answers\<close> answers \<open>ok\<close> to every
  request.
\<close>

definition first_fails :: "unit client" where
  "first_fails = (\<lambda>s model_name temperature messages.
     if model_name = u ''llama-3.1-8b-instant'' then (Inl (ApiError (u ''503'')), s)
     else (Inr (Completion [Some (u '' B '')]), s))"

definition always_answers :: "unit client" where
  "always_answers = (\<lambda>s model_name temperature messages. (Inr (Completion [Some (u ''ok'')]), s))"

text \<open>
  A corpus for the scenarios: a title line, then three sections; the second of them
  has a line after its header.
\<close>

definition handbook :: pystr where
  "handbook =
     u ''UniHelp handbook'' @ [10] @
     u ''SECTION 3: Grants are paid in October.'' @ [10] @
     u ''SECTION 4: Internship rules require a signed convention.'' @ [10] @
     u ''The report is due in June.'' @ [10] @
     u ''SECTION 5: Absences need a note.''"

section \<open>Properties of the conversation store\<close>

lemma save_chat_history_frame:
  "chat_history (save_chat_history io_ok s) = chat_history s"
  "current_conversation (save_chat_history io_ok s) = current_conversation s"
  "conversation_id (save_chat_history io_ok s) = conversation_id s"
  by (simp_all add: save_chat_history_def)

lemma display_inv_init:
  "display_inv (init_session_state sid loaded loaded_emails file now_id)"
  by (simp add: display_inv_def init_session_state_def)

lemma display_inv_step:
  assumes "display_inv s"
  shows "display_inv (apply_store_op s opn)"
proof (cases opn)
  case (Append now_iso io_ok q a)
  with assms show ?thesis
    by (auto simp: display_inv_def add_to_chat_history_def Let_def save_chat_history_frame
        list_all_iff)
next
  case (StartNew now_id)
  then show ?thesis
    by (simp add: display_inv_def start_new_conversation_def)
next
  case (DeleteConversation io_ok cid)
  with assms show ?thesis
    by (auto simp: display_inv_def delete_conversation_by_id_def Let_def
        save_chat_history_frame list_all_iff)
next
  case (ClearAll io_ok)
  then show ?thesis
    by (simp add: display_inv_def clear_all_history_def save_chat_history_frame)
qed

lemma display_inv_run:
  "display_inv s \<Longrightarrow> display_inv (run_store_ops ops s)"
  unfolding run_store_ops_def
  by (induction ops arbitrary: s) (simp_all add: display_inv_step)

text \<open>
  Claim C9. \<open>start_new_conversation\<close> changes the active conversation id and empties
  the displayed conversation, and nothing else: the durable history \<open>chat_history\<close>
  is the same list of turns afterwards, the history file is not written, and every
  other field of the session state keeps its value.
\<close>

theorem start_new_conversation_keeps_history:
  "chat_history (start_new_conversation now_id s) = chat_history s
   \<and> chat_file (start_new_conversation now_id s) = chat_file s
   \<and> current_conversation (start_new_conversation now_id s) = []
   \<and> conversation_id (start_new_conversation now_id s) = now_id
   \<and> start_new_conversation now_id s
       = s\<lparr>conversation_id := now_id, current_conversation := []\<rparr>
   \<and> session_id (start_new_conversation now_id s) = session_id s
   \<and> language (start_new_conversation now_id s) = language s
   \<and> email_history (start_new_conversation now_id s) = email_history s
   \<and> current_email (start_new_conversation now_id s) = current_email s
   \<and> shown_warnings (start_new_conversation now_id s) = shown_warnings s
   \<and> shown_errors (start_new_conversation now_id s) = shown_errors s"
  by (simp add: start_new_conversation_def)

text \<open>
  Claim C10. Start from the state \<open>init_session_state\<close> builds, whatever history was
  loaded, and run any sequence of \<open>add_to_chat_history\<close>, \<open>start_new_conversation\<close>,
  \<open>delete_conversation_by_id\<close> and \<open>clear_all_history\<close>: every turn of
  \<open>current_conversation\<close> is then a turn of \<open>chat_history\<close>.
\<close>

theorem displayed_turns_are_in_history:
  "set (current_conversation
          (run_store_ops ops (init_session_state sid loaded loaded_emails file now_id)))
   \<subseteq> set (chat_history
          (run_store_ops ops (init_session_state sid loaded loaded_emails file now_id)))"
proof -
  have "display_inv (run_store_ops ops (init_session_state sid loaded loaded_emails file now_id))"
    by (rule display_inv_run [OF display_inv_init])
  then show ?thesis
    by (auto simp: display_inv_def list_all_iff)
qed

theorem displayed_turns_are_in_history_witness:
  "set (current_conversation
          (run_store_ops
             [Append (u ''t1'') True (u ''q1'') (u ''a1''), StartNew (u ''c2''),
              Append (u ''t2'') False (u ''q2'') (u ''a2''), DeleteConversation True (u ''c1'')]
             (init_session_state (u ''s'') [] [] None (u ''c1''))))
   \<subseteq> set (chat_history
          (run_store_ops
             [Append (u ''t1'') True (u ''q1'') (u ''a1''), StartNew (u ''c2''),
              Append (u ''t2'') False (u ''q2'') (u ''a2''), DeleteConversation True (u ''c1'')]
             (init_session_state (u ''s'') [] [] None (u ''c1''))))"
  by (rule displayed_turns_are_in_history)

section \<open>Properties of the rate limiter\<close>

lemma rate_limit_step:
  "rate_limit func now uid ui_lang storage a =
     (let kept = filter (\<lambda>ts. now - ts < 60) (storage uid)
      in if length kept < 10 then (Allowed (func a), storage(uid := kept @ [now]))
         else (Denied (get_text ui_lang (u ''rate_limit'')), storage(uid := kept)))"
  by (simp add: rate_limit_def Let_def RATE_LIMIT_REQUESTS_def RATE_LIMIT_WINDOW_SECONDS_def)

text \<open>
  While every call instant is less than a window away from every recorded timestamp
  and every other call instant, nothing is pruned: the calls are allowed until the
  session holds ten timestamps and denied from then on.
\<close>

lemma gated_calls_in_window:
  assumes "storage uid = l"
    and "\<forall>t \<in> set nows. \<forall>x \<in> set l \<union> set nows. t - x < 60"
  shows "gated_calls func uid ui_lang a nows storage =
           (replicate (min (length nows) (10 - length l)) (Allowed (func a))
              @ replicate (length nows - (10 - length l)) (Denied (get_text ui_lang (u ''rate_limit''))),
            storage(uid := l @ take (10 - length l) nows))"
  using assms
proof (induction nows arbitrary: storage l)
  case Nil
  then show ?case by auto
next
  case (Cons t nows)
  have keep: "filter (\<lambda>ts. t - ts < 60) (storage uid) = l"
    using Cons.prems by (auto simp: filter_id_conv)
  show ?case
  proof (cases "length l < 10")
    case True
    define st where "st = storage(uid := l @ [t])"
    have step: "rate_limit func t uid ui_lang storage a = (Allowed (func a), st)"
      using True keep by (simp add: rate_limit_step st_def)
    have st_uid: "st uid = l @ [t]"
      by (simp add: st_def)
    have pre: "\<forall>t' \<in> set nows. \<forall>x \<in> set (l @ [t]) \<union> set nows. t' - x < 60"
      using Cons.prems(2) by auto
    obtain k where k: "10 - length l = Suc k"
      using True by (cases "10 - length l") auto
    then have k': "10 - length (l @ [t]) = k" by simp
    have ih: "gated_calls func uid ui_lang a nows st =
           (replicate (min (length nows) k) (Allowed (func a))
              @ replicate (length nows - k) (Denied (get_text ui_lang (u ''rate_limit''))),
            st(uid := (l @ [t]) @ take k nows))"
      using Cons.IH [of st "l @ [t]", OF st_uid pre] unfolding k' .
    have upd: "st(uid := l @ t # take k nows) = storage(uid := l @ t # take k nows)"
      by (simp add: st_def)
    show ?thesis
      apply (simp only: gated_calls.simps step Let_def prod.case ih k)
      apply (simp only: upd min_Suc_Suc length_Cons replicate_Suc append_Cons diff_Suc_Suc
          take_Suc_Cons append_assoc append_Nil)
      done
  next
    case False
    have same: "storage(uid := l) = storage"
      using Cons.prems(1) by auto
    have step: "rate_limit func t uid ui_lang storage a = (Denied (get_text ui_lang (u ''rate_limit'')), storage)"
      using False keep by (simp add: rate_limit_step same)
    have pre: "\<forall>t' \<in> set nows. \<forall>x \<in> set l \<union> set nows. t' - x < 60"
      using Cons.prems(2) by auto
    have z: "10 - length l = 0" using False by simp
    show ?thesis
      using Cons.IH [of storage l, OF Cons.prems(1) pre] unfolding z by (simp add: step)
  qed
qed

lemma rate_limit_after_window:
  assumes "storage uid = l" "length l \<le> 10" "x \<in> set l" "60 \<le> t - x"
  shows "fst (rate_limit func t uid ui_lang storage a) = Allowed (func a)"
proof -
  have "length (filter (\<lambda>ts. t - ts < 60) l) < length l"
    using assms(3,4) by (intro length_filter_less[of x]) auto
  then show ?thesis
    using assms(1,2) by (simp add: rate_limit_step Let_def)
qed

text \<open>
  Claim C8. (1) One call of the gate for a session: the timestamps that are 60 or more
  time units old are dropped; if fewer than 10 are left the call is allowed, the
  wrapped function runs and the new timestamp is recorded; otherwise the call is
  denied, which is a returned result and not an exception, and no timestamp is
  recorded. Other sessions are not touched. (2) A session with no recorded timestamp makes eleven calls,
  any two of them less than 60 apart: the first ten are allowed and the eleventh is
  denied, and the session then holds the ten timestamps. (3) A later call, made when
  one of these ten is 60 or more old, is allowed again.
\<close>

theorem rate_limit_gate:
  "rate_limit func now uid ui_lang storage a =
     (if length (filter (\<lambda>ts. now - ts < 60) (storage uid)) < 10
      then (Allowed (func a),
            storage(uid := filter (\<lambda>ts. now - ts < 60) (storage uid) @ [now]))
      else (Denied (get_text ui_lang (u ''rate_limit'')), storage(uid := filter (\<lambda>ts. now - ts < 60) (storage uid))))
   \<and> (\<forall>other. other \<noteq> uid \<longrightarrow> snd (rate_limit func now uid ui_lang storage a) other = storage other)
   \<and> (storage uid = [] \<and> length ts = 10
        \<and> (\<forall>t \<in> set (ts @ [t11]). \<forall>x \<in> set (ts @ [t11]). t - x < 60)
      \<longrightarrow> gated_calls func uid ui_lang a (ts @ [t11]) storage
            = (replicate 10 (Allowed (func a)) @ [Denied (get_text ui_lang (u ''rate_limit''))], storage(uid := ts))
          \<and> (\<forall>t. (\<exists>x \<in> set ts. 60 \<le> t - x)
                \<longrightarrow> fst (rate_limit func t uid ui_lang (storage(uid := ts)) a) = Allowed (func a)))"
proof (intro conjI impI allI)
  show "rate_limit func now uid ui_lang storage a =
     (if length (filter (\<lambda>ts. now - ts < 60) (storage uid)) < 10
      then (Allowed (func a),
            storage(uid := filter (\<lambda>ts. now - ts < 60) (storage uid) @ [now]))
      else (Denied (get_text ui_lang (u ''rate_limit'')), storage(uid := filter (\<lambda>ts. now - ts < 60) (storage uid))))"
    by (simp add: rate_limit_step Let_def)
next
  fix other assume "other \<noteq> uid"
  then show "snd (rate_limit func now uid ui_lang storage a) other = storage other"
    by (simp add: rate_limit_step Let_def)
next
  assume h: "storage uid = [] \<and> length ts = 10
        \<and> (\<forall>t \<in> set (ts @ [t11]). \<forall>x \<in> set (ts @ [t11]). t - x < 60)"
  then have pre: "\<forall>t \<in> set (ts @ [t11]). \<forall>x \<in> set [] \<union> set (ts @ [t11]). t - x < 60"
    by simp
  from h have e: "storage uid = []" and n: "length ts = 10" by simp_all
  show "gated_calls func uid ui_lang a (ts @ [t11]) storage
            = (replicate 10 (Allowed (func a)) @ [Denied (get_text ui_lang (u ''rate_limit''))], storage(uid := ts))"
    using gated_calls_in_window [where storage = storage and uid = uid and l = "[]" and nows = "ts @ [t11]"
        and func = func and a = a and ui_lang = ui_lang, OF e pre] n by simp
next
  fix t
  assume h: "storage uid = [] \<and> length ts = 10
        \<and> (\<forall>t \<in> set (ts @ [t11]). \<forall>x \<in> set (ts @ [t11]). t - x < 60)"
    and "\<exists>x \<in> set ts. 60 \<le> t - x"
  then obtain x where x: "x \<in> set ts" "60 \<le> t - x" by blast
  have "(storage(uid := ts)) uid = ts" by simp
  moreover from h have "length ts \<le> 10" by simp
  ultimately show "fst (rate_limit func t uid ui_lang (storage(uid := ts)) a) = Allowed (func a)"
    using x by (rule rate_limit_after_window)
qed

theorem rate_limit_gate_witness:
  "((\<lambda>_. []) :: pystr \<Rightarrow> real list) (u ''sid'') = []
   \<and> length [0, 1, 2, 3, 4, 5, 6, 7, 8, 9 :: real] = 10
   \<and> (10 :: real) - 0 < 60
   \<and> gated_calls Suc (u ''sid'') FR 0 ([0, 1, 2, 3, 4, 5, 6, 7, 8, 9] @ [10]) (\<lambda>_. [])
       = (replicate 10 (Allowed (Suc 0)) @ [Denied (u ''rate_limit'')],
          (\<lambda>_. [])(u ''sid'' := [0, 1, 2, 3, 4, 5, 6, 7, 8, 9]))
   \<and> fst (rate_limit Suc 60 (u ''sid'') FR
             ((\<lambda>_. [])(u ''sid'' := [0, 1, 2, 3, 4, 5, 6, 7, 8, 9])) 0) = Allowed (Suc 0)"
proof -
  let ?ts = "[0, 1, 2, 3, 4, 5, 6, 7, 8, 9 :: real]"
  let ?st = "(\<lambda>_. []) :: pystr \<Rightarrow> real list"
  have h: "?st (u ''sid'') = [] \<and> length ?ts = 10
        \<and> (\<forall>t \<in> set (?ts @ [10]). \<forall>x \<in> set (?ts @ [10]). t - x < 60)"
    by simp
  note g = rate_limit_gate [of Suc 0 "u ''sid''" FR ?st 0 ?ts 10,
      THEN conjunct2, THEN conjunct2, THEN mp, OF h]
  have later: "\<exists>x \<in> set ?ts. 60 \<le> (60 :: real) - x"
    by simp
  from g have "fst (rate_limit Suc 60 (u ''sid'') FR (?st(u ''sid'' := ?ts)) 0) = Allowed (Suc 0)"
    using later by blast
  moreover have "get_text FR (u ''rate_limit'') = u ''rate_limit''"
    by (simp add: get_text_def LANGUAGES_def u_def)
  ultimately show ?thesis
    using g h by simp
qed

section \<open>Properties of the context selection\<close>

subsection \<open>Splitting and joining\<close>

lemma split_on_notin:
  "sep \<notin> set a \<Longrightarrow> split_on sep a = [a]"
  by (induction a) auto

lemma split_on_append:
  "sep \<notin> set a \<Longrightarrow> split_on sep (a @ sep # b) = a # split_on sep b"
  by (induction a) auto

lemma sublist_join:
  "x \<in> set xs \<Longrightarrow> sublist x (join sep xs)"
proof (induction sep xs rule: join.induct)
  case (1 sep)
  then show ?case by simp
next
  case (2 sep y)
  then show ?case by simp
next
  case (3 sep y z zs)
  show ?case
  proof (cases "x = y")
    case True
    then show ?thesis by simp
  next
    case False
    with 3 have "sublist x (join sep (z # zs))" by simp
    then show ?thesis
      by (metis join.simps(3) sublist_append_leftI sublist_order.order_trans append_assoc)
  qed
qed

lemma join_Nil_iff:
  "join sep xs = [] \<Longrightarrow> x \<in> set xs \<Longrightarrow> x = []"
  by (induction sep xs rule: join.induct) auto

subsection \<open>A section that fits is returned whole\<close>

text \<open>
  While the sections matching the label fit below the budget together, the inner loop
  appends each of them in full and goes on to the next item.
\<close>

lemma scan_sections_fitting_prefix:
  "total_chars + matched_chars key before < max_chars \<Longrightarrow>
   scan_sections key max_chars (before @ rest) (extracted, total_chars) =
     scan_sections key max_chars rest
       (extracted @ map snd (filter (\<lambda>(d, c). sublist key d) before),
        total_chars + matched_chars key before)"
proof (induction before arbitrary: extracted total_chars)
  case Nil
  then show ?case by (simp add: matched_chars_def)
next
  case (Cons p before)
  obtain d c where p: "p = (d, c)" by (cases p)
  show ?case
  proof (cases "sublist key d")
    case True
    have m: "matched_chars key ((d, c) # before) = int (length c) + matched_chars key before"
      using True by (simp add: matched_chars_def)
    have "0 \<le> matched_chars key before"
      unfolding matched_chars_def by (rule sum_list_nonneg) auto
    with Cons.prems m have fits: "total_chars + int (length c) < max_chars"
      unfolding p by linarith
    from Cons.prems m
    have "(total_chars + int (length c)) + matched_chars key before < max_chars"
      unfolding p by linarith
    from Cons.IH [OF this, of "extracted @ [c]"] fits True show ?thesis
      by (simp add: p m add.assoc)
  next
    case False
    then have m: "matched_chars key ((d, c) # before) = matched_chars key before"
      by (simp add: matched_chars_def)
    with Cons.prems have "total_chars + matched_chars key before < max_chars"
      unfolding p by simp
    from Cons.IH [OF this, of extracted] False show ?thesis
      by (simp add: p m)
  qed
qed

text \<open>The inner loop only ever appends to \<open>extracted\<close>.\<close>

lemma scan_sections_extends:
  "\<exists>more. fst (scan_sections key max_chars rest (extracted, total_chars)) = extracted @ more"
proof (induction rest arbitrary: extracted total_chars)
  case Nil
  then show ?case by simp
next
  case (Cons p rest)
  obtain d c where p: "p = (d, c)" by (cases p)
  from Cons.IH [of "extracted @ [c]" "total_chars + int (length c)"]
  obtain more where "fst (scan_sections key max_chars rest
      (extracted @ [c], total_chars + int (length c))) = extracted @ c # more"
    by auto
  with Cons.IH [of extracted total_chars] show ?case
    by (auto simp: p Let_def)
qed

text \<open>
  The question selects the single label \<open>X\<close>; the dict of sections holds
  \<open>content\<close> under \<open>X\<close>; the sections before it whose label contains \<open>X\<close>,
  and the section itself, stay below \<open>max_chars\<close> together. Then the function
  returns a string that contains \<open>content\<close> as a contiguous piece.
\<close>

lemma fitting_section_returned:
  assumes "relevant_sections (lower user_question) = [X]"
    and "parse_sections full_context = Inr (before @ (X, content) # after)"
    and "matched_chars X before + int (length content) < max_chars"
  shows "\<exists>result. extract_relevant_sections lower full_context user_question max_chars = Inr result
           \<and> sublist content result"
proof -
  let ?sd = "before @ (X, content) # after"
  let ?b = "map snd (filter (\<lambda>(d, c). sublist X d) before)"
  have "0 \<le> int (length content)" by simp
  with assms(3) have pre: "0 + matched_chars X before < max_chars" by linarith
  have "scan_sections X max_chars ?sd ([], 0)
        = scan_sections X max_chars ((X, content) # after) ([] @ ?b, 0 + matched_chars X before)"
    using pre by (rule scan_sections_fitting_prefix)
  also have "\<dots> = scan_sections X max_chars after
                     (?b @ [content], matched_chars X before + int (length content))"
    using assms(3) by simp
  finally have scan: "scan_sections X max_chars ?sd ([], 0)
        = scan_sections X max_chars after
            (?b @ [content], matched_chars X before + int (length content))" .
  obtain more where more: "fst (scan_sections X max_chars ?sd ([], 0)) = (?b @ [content]) @ more"
    unfolding scan using scan_sections_extends by blast
  let ?ex = "fst (scan_sections X max_chars ?sd ([], 0))"
  have mem: "content \<in> set ?ex"
    unfolding more by simp
  then have ne: "?ex \<noteq> []"
    by (cases ?ex) simp_all
  have res: "extract_relevant_sections lower full_context user_question max_chars =
      Inr (if join [10, 10] ?ex \<noteq> [] then join [10, 10] ?ex else slice_to max_chars full_context)"
    using ne by (simp add: extract_relevant_sections_def extract_with_labels_def assms(1,2) Let_def)
  show ?thesis
  proof (cases "join [10, 10] ?ex = []")
    case True
    then have "content = []" using mem by (rule join_Nil_iff)
    then show ?thesis using res by simp
  next
    case False
    then show ?thesis using res sublist_join [OF mem] by simp
  qed
qed

subsection \<open>What the parser stores for a section of the corpus\<close>

lemma parse_lines_append:
  "parse_lines (a @ b) cs cc d =
     (case parse_lines a cs cc d of
        Inl e \<Rightarrow> Inl e
      | Inr (cs', cc', d') \<Rightarrow> parse_lines b cs' cc' d')"
  by (induction a arbitrary: cs cc d) (auto simp: Let_def split: sum.splits)

lemma parse_lines_body:
  "\<forall>l \<in> set body. \<not> prefix (u ''SECTION '') l \<Longrightarrow> truthy cs \<Longrightarrow>
   parse_lines body cs cc d = Inr (cs, cc @ body, d)"
  by (induction body arbitrary: cc) auto

lemma strip_nonempty:
  "\<not> is_space c \<Longrightarrow> strip (c # cs) \<noteq> []"
proof -
  assume c: "\<not> is_space c"
  then have "dropWhile is_space (c # cs) = c # cs" by simp
  moreover have "dropWhile is_space (rev (c # cs)) \<noteq> []"
    using c by (auto simp: dropWhile_eq_Nil_conv)
  ultimately show ?thesis by (simp add: strip_def)
qed

lemma split_on_nonempty:
  "split_on sep s \<noteq> []"
  by (induction s) (auto split: list.splits)

lemma hd_split_on_Cons:
  "c \<noteq> sep \<Longrightarrow> hd (split_on sep (c # cs)) = c # hd (split_on sep cs)"
  using split_on_nonempty [of sep cs] by (cases "split_on sep cs") auto

lemma section_label_nonempty:
  assumes "prefix (u ''SECTION '') line" "section_label line = Inr X"
  shows "X \<noteq> []"
proof (cases "58 \<in> set line")
  case True
  from assms(1) obtain r where line: "line = 83 # r"
    by (auto simp: prefix_def u_def)
  have "hd (split_on 58 line) = 83 # hd (split_on 58 r)"
    unfolding line by (rule hd_split_on_Cons) simp
  moreover have "\<not> is_space 83" by (simp add: is_space_def)
  ultimately have "strip (hd (split_on 58 line)) \<noteq> []"
    by (simp add: strip_nonempty)
  with assms(2) True show ?thesis
    by (simp add: section_label_def)
next
  case False
  have sp: "u '' '' \<noteq> []" by (simp add: u_def)
  from False assms(2) show ?thesis
    by (auto simp: section_label_def sp split: list.splits)
qed

lemma parse_lines_keeps_other:
  "parse_lines ls cs cc d = Inr (cs', cc', d') \<Longrightarrow> cs \<noteq> Some X \<Longrightarrow>
   \<forall>l \<in> set ls. prefix (u ''SECTION '') l \<longrightarrow> section_label l \<noteq> Inr X \<Longrightarrow>
   cs' \<noteq> Some X \<and> map_of d' X = map_of d X"
proof (induction ls arbitrary: cs cc d)
  case Nil
  then show ?case by simp
next
  case (Cons l ls)
  show ?case
  proof (cases "prefix (u ''SECTION '') l")
    case True
    let ?saved = "if truthy cs then AList.update (the cs) (join [10] cc) d else d"
    have saved: "map_of ?saved X = map_of d X"
      using Cons.prems(2) by (cases cs) (auto simp: truthy_def update_conv')
    from Cons.prems(1) True obtain lab where lab: "section_label l = Inr lab"
      and run: "parse_lines ls (Some lab) [l] ?saved = Inr (cs', cc', d')"
      by (cases "section_label l") (simp_all add: Let_def)
    from Cons.prems(3) True lab have ne: "Some lab \<noteq> Some X" by auto
    from Cons.prems(3) have rest: "\<forall>l \<in> set ls. prefix (u ''SECTION '') l \<longrightarrow> section_label l \<noteq> Inr X"
      by simp
    from Cons.IH [OF run ne rest] saved show ?thesis by simp
  next
    case False
    with Cons.prems(1) have "parse_lines ls cs (if truthy cs then cc @ [l] else cc) d = Inr (cs', cc', d')"
      by (simp split: if_splits)
    from Cons.IH [OF this Cons.prems(2)] Cons.prems(3) show ?thesis by simp
  qed
qed

text \<open>
  The lines of the corpus are \<open>pre\<close>, then a header line whose label is \<open>X\<close>,
  followed by the lines \<open>body\<close>, none of them a header, and by \<open>post\<close>, which is
  empty or starts at a header; no header of \<open>post\<close> has the label \<open>X\<close> again.
  When the parser returns, the dict holds under \<open>X\<close> the header line and the body
  lines, joined by line feeds.
\<close>

lemma section_text_stored:
  assumes lines: "split_on 10 full_context = pre @ header # body @ post"
    and hdr: "prefix (u ''SECTION '') header" "section_label header = Inr X"
    and body: "\<forall>l \<in> set body. \<not> prefix (u ''SECTION '') l"
    and post: "post = [] \<or> prefix (u ''SECTION '') (hd post)"
    and later: "\<forall>l \<in> set post. prefix (u ''SECTION '') l \<longrightarrow> section_label l \<noteq> Inr X"
    and parsed: "parse_sections full_context = Inr sections_dict"
  shows "map_of sections_dict X = Some (join [10] (header # body))"
proof -
  let ?c = "join [10] (header # body)"
  have X: "X \<noteq> []"
    using hdr by (rule section_label_nonempty)
  then have tX: "truthy (Some X)"
    by (simp add: truthy_def)
  from parsed obtain csF ccF dF
    where F: "parse_lines (pre @ header # body @ post) None [] [] = Inr (csF, ccF, dF)"
      and sd: "sections_dict = (if truthy csF \<and> ccF \<noteq> []
                 then AList.update (the csF) (join [10] ccF) dF else dF)"
    by (auto simp: parse_sections_def lines split: sum.splits)
  from F obtain cs1 cc1 d1
    where H: "parse_lines (header # body @ post) cs1 cc1 d1 = Inr (csF, ccF, dF)"
    by (auto simp: parse_lines_append split: sum.splits)
  define saved1 where
    "saved1 = (if truthy cs1 then AList.update (the cs1) (join [10] cc1) d1 else d1)"
  from H have B: "parse_lines (body @ post) (Some X) [header] saved1 = Inr (csF, ccF, dF)"
    by (simp add: hdr Let_def saved1_def)
  have Q: "parse_lines post (Some X) (header # body) saved1 = Inr (csF, ccF, dF)"
    using B by (simp add: parse_lines_append parse_lines_body [OF body tX])
  show ?thesis
  proof (cases post)
    case Nil
    with Q have "csF = Some X" "ccF = header # body" "dF = saved1"
      by simp_all
    then show ?thesis
      using sd tX by (simp add: update_conv')
  next
    case (Cons h2 rest)
    with post have p2: "prefix (u ''SECTION '') h2"
      by simp
    define saved2 where "saved2 = AList.update X ?c saved1"
    from Q Cons p2 tX obtain lab2
      where l2: "section_label h2 = Inr lab2"
        and R: "parse_lines rest (Some lab2) [h2] saved2 = Inr (csF, ccF, dF)"
      by (cases "section_label h2") (simp_all add: Let_def saved2_def)
    from later Cons p2 l2 have n2: "Some lab2 \<noteq> Some X"
      by auto
    from later Cons
    have lr: "\<forall>l \<in> set rest. prefix (u ''SECTION '') l \<longrightarrow> section_label l \<noteq> Inr X"
      by simp
    from parse_lines_keeps_other [OF R n2 lr]
    have k: "csF \<noteq> Some X" "map_of dF X = map_of saved2 X"
      by simp_all
    have "map_of saved2 X = Some ?c"
      by (simp add: saved2_def update_conv')
    with k sd show ?thesis
      by (cases csF) (auto simp: truthy_def update_conv')
  qed
qed

lemma matched_chars_append:
  "matched_chars X (a @ b) = matched_chars X a + matched_chars X b"
  by (simp add: matched_chars_def)

lemma matched_chars_nonneg:
  "0 \<le> matched_chars X a"
  unfolding matched_chars_def by (rule sum_list_nonneg) auto

text \<open>
  A section of the corpus, as the lines above describe it, is returned whole when the
  question selects its label alone, the parser returns, and no truncation is
  triggered: the result contains the header line and the body lines of the section,
  joined by line feeds, as a contiguous piece.
\<close>

lemma section_text_returned:
  assumes rel: "relevant_sections (lower user_question) = [X]"
    and lines: "split_on 10 full_context = pre @ header # body @ post"
    and hdr: "prefix (u ''SECTION '') header" "section_label header = Inr X"
    and body: "\<forall>l \<in> set body. \<not> prefix (u ''SECTION '') l"
    and post: "post = [] \<or> prefix (u ''SECTION '') (hd post)"
    and later: "\<forall>l \<in> set post. prefix (u ''SECTION '') l \<longrightarrow> section_label l \<noteq> Inr X"
    and parsed: "parse_sections full_context = Inr sections_dict"
    and fits: "matched_chars X sections_dict < max_chars"
  shows "\<exists>result. extract_relevant_sections lower full_context user_question max_chars = Inr result
           \<and> sublist (join [10] (header # body)) result"
proof -
  let ?c = "join [10] (header # body)"
  have "map_of sections_dict X = Some ?c"
    using lines hdr body post later parsed by (rule section_text_stored)
  then have "(X, ?c) \<in> set sections_dict"
    by (rule map_of_SomeD)
  then obtain before after where sd: "sections_dict = before @ (X, ?c) # after"
    by (auto simp: in_set_conv_decomp)
  have "matched_chars X sections_dict
        = matched_chars X before + (int (length ?c) + matched_chars X after)"
    unfolding sd by (simp add: matched_chars_append) (simp add: matched_chars_def)
  with fits matched_chars_nonneg [of X after]
  have "matched_chars X before + int (length ?c) < max_chars"
    by linarith
  with rel parsed show ?thesis
    unfolding sd by (rule fitting_section_returned)
qed

text \<open>
  The parser returns whenever every header line of the corpus yields a label.
\<close>

lemma parse_lines_returns:
  "\<forall>l \<in> set ls. prefix (u ''SECTION '') l \<longrightarrow> (\<exists>label. section_label l = Inr label) \<Longrightarrow>
   \<exists>st. parse_lines ls cs cc d = Inr st"
  by (induction ls arbitrary: cs cc d) (auto simp: Let_def)

lemma parse_sections_returns:
  assumes "\<forall>l \<in> set (split_on 10 full_context).
             prefix (u ''SECTION '') l \<longrightarrow> (\<exists>label. section_label l = Inr label)"
  shows "\<exists>sections_dict. parse_sections full_context = Inr sections_dict"
proof -
  from parse_lines_returns [OF assms, of None "[]" "[]"]
  obtain st where "parse_lines (split_on 10 full_context) None [] [] = Inr st" by blast
  then show ?thesis
    by (cases st) (simp add: parse_sections_def)
qed

text \<open>
  The corpus \<open>handbook\<close> and the question about internships: the question selects
  \<open>SECTION 4\<close> alone, and the result is that section, its header line and the line
  after it, and nothing else of the corpus.
\<close>

lemma handbook_lines:
  "split_on 10 handbook =
     [u ''UniHelp handbook'', u ''SECTION 3: Grants are paid in October.'']
     @ u ''SECTION 4: Internship rules require a signed convention.''
     # [u ''The report is due in June.'']
     @ [u ''SECTION 5: Absences need a note.'']"
  by (simp add: handbook_def u_def)

lemma handbook_sections:
  "parse_sections handbook =
     Inr [(u ''SECTION 3'', u ''SECTION 3: Grants are paid in October.''),
          (u ''SECTION 4'', u ''SECTION 4: Internship rules require a signed convention.''
                            @ [10] @ u ''The report is due in June.''),
          (u ''SECTION 5'', u ''SECTION 5: Absences need a note.'')]"
  by (simp add: parse_sections_def handbook_def section_label_def strip_def is_space_def u_def truthy_def)

lemma handbook_labels:
  "section_label (u ''SECTION 4: Internship rules require a signed convention.'') = Inr (u ''SECTION 4'')"
  "section_label (u ''SECTION 5: Absences need a note.'') = Inr (u ''SECTION 5'')"
  by (simp_all add: section_label_def strip_def is_space_def u_def)

lemma handbook_fits:
  "matched_chars (u ''SECTION 4'')
     [(u ''SECTION 3'', u ''SECTION 3: Grants are paid in October.''),
      (u ''SECTION 4'', u ''SECTION 4: Internship rules require a signed convention.''
                        @ [10] @ u ''The report is due in June.''),
      (u ''SECTION 5'', u ''SECTION 5: Absences need a note.'')] < 4000"
  by (simp add: matched_chars_def u_def sublist_code)

lemma internship_question_labels:
  "relevant_sections (lower_latin1 (u ''what documents do I need for an internship?''))
     = [u ''SECTION 4'']"
  by (simp add: relevant_sections_def keyword_sections_def lower_latin1_def u_def sublist_code)

lemma handbook_section_returned:
  "\<exists>result. extract_relevant_sections lower_latin1 handbook
        (u ''what documents do I need for an internship?'') 4000 = Inr result
     \<and> sublist (u ''SECTION 4: Internship rules require a signed convention.''
                 @ [10] @ u ''The report is due in June.'') result"
proof -
  have "\<exists>result. extract_relevant_sections lower_latin1 handbook
        (u ''what documents do I need for an internship?'') 4000 = Inr result
     \<and> sublist (join [10] (u ''SECTION 4: Internship rules require a signed convention.''
                            # [u ''The report is due in June.''])) result"
  proof (rule section_text_returned
      [where lower = lower_latin1
         and user_question = "u ''what documents do I need for an internship?''"
         and X = "u ''SECTION 4''" and full_context = handbook
         and pre = "[u ''UniHelp handbook'', u ''SECTION 3: Grants are paid in October.'']"
         and header = "u ''SECTION 4: Internship rules require a signed convention.''"
         and body = "[u ''The report is due in June.'']"
         and post = "[u ''SECTION 5: Absences need a note.'']"
         and max_chars = 4000,
       OF internship_question_labels handbook_lines _ _ _ _ _ handbook_sections handbook_fits])
    show "prefix (u ''SECTION '') (u ''SECTION 4: Internship rules require a signed convention.'')"
      by (simp add: u_def)
    show "section_label (u ''SECTION 4: Internship rules require a signed convention.'') = Inr (u ''SECTION 4'')"
      by (rule handbook_labels)
    show "\<forall>l \<in> set [u ''The report is due in June.'']. \<not> prefix (u ''SECTION '') l"
      by (simp add: u_def)
    show "[u ''SECTION 5: Absences need a note.''] = []
          \<or> prefix (u ''SECTION '') (hd [u ''SECTION 5: Absences need a note.''])"
      by (simp add: u_def)
    show "\<forall>l \<in> set [u ''SECTION 5: Absences need a note.''].
            prefix (u ''SECTION '') l \<longrightarrow> section_label l \<noteq> Inr (u ''SECTION 4'')"
      by (simp add: handbook_labels) (simp add: u_def)
  qed
  then show ?thesis by simp
qed

lemma handbook_result:
  "extract_relevant_sections lower_latin1 handbook
        (u ''what documents do I need for an internship?'') 4000
   = Inr (u ''SECTION 4: Internship rules require a signed convention.''
          @ [10] @ u ''The report is due in June.'')"
proof -
  let ?c = "u ''SECTION 4: Internship rules require a signed convention.''
          @ [10] @ u ''The report is due in June.''"
  have sub: "\<not> sublist (u ''SECTION 4'') (u ''SECTION 3'')"
    "sublist (u ''SECTION 4'') (u ''SECTION 4'')"
    "\<not> sublist (u ''SECTION 4'') (u ''SECTION 5'')"
    by (simp_all add: u_def sublist_code)
  have len: "int (length ?c) < 4000" and ne: "?c \<noteq> []"
    by (simp_all add: u_def)
  have "scan_sections (u ''SECTION 4'') 4000
          [(u ''SECTION 3'', u ''SECTION 3: Grants are paid in October.''),
           (u ''SECTION 4'', ?c),
           (u ''SECTION 5'', u ''SECTION 5: Absences need a note.'')] ([], 0)
        = ([?c], int (length ?c))"
    using len by (simp add: sub)
  then show ?thesis
    using ne
    by (simp add: extract_relevant_sections_def extract_with_labels_def
        internship_question_labels handbook_sections Let_def del: scan_sections.simps)
qed

subsection \<open>A header line with one word\<close>

text \<open>
  Claim C6, evaluated where it fails. The corpus has the header line \<open>SECTION\<close>
  followed by one space, then a line of text. The line starts with the section marker
  and has no colon, so the label is built from the first two words of the line; there
  is one word only, and the function raises \<open>IndexError\<close> for every question and
  every \<open>max_chars\<close>: it returns no string.
\<close>

theorem extract_raises_on_one_word_header:
  "extract_relevant_sections lower (u ''SECTION '' @ [10] @ u ''Inscription rules'')
     user_question max_chars = Inl IndexError"
  by (simp add: extract_relevant_sections_def extract_with_labels_def parse_sections_def u_def
      section_label_def split_ws_def is_space_def)

text \<open>When the function does return, on a corpus that is not empty, the text is not empty.\<close>

lemma extract_with_labels_nonempty:
  assumes "full_context \<noteq> []" "0 < max_chars"
    and "extract_with_labels labels full_context max_chars = Inr result"
  shows "result \<noteq> []"
proof -
  have "slice_to max_chars full_context \<noteq> []"
    using assms(1,2) by (simp add: slice_to_def)
  with assms(3) show ?thesis
    by (auto simp: extract_with_labels_def Let_def split: sum.splits if_splits)
qed

text \<open>
  Claim C7, evaluated where it fails. The corpus has the section \<open>SECTION 4\<close>, one
  line of 56 characters, then the header line \<open>SECTION\<close> followed by one space, then
  a line of text. The question selects \<open>SECTION 4\<close> alone and the section fits the
  budget of 4000 many times over. The one-word header line makes the parser raise
  \<open>IndexError\<close>: the function returns no string, so the text of \<open>SECTION 4\<close> is
  not returned.
\<close>

theorem section_lost_to_one_word_header:
  "relevant_sections (lower_latin1 (u ''what documents do I need for an internship?''))
     = [u ''SECTION 4'']
   \<and> split_on 10 (u ''SECTION 4: Internship rules require a signed convention.'' @ [10]
                   @ u ''SECTION '' @ [10] @ u ''Annex'')
     = [u ''SECTION 4: Internship rules require a signed convention.'', u ''SECTION '', u ''Annex'']
   \<and> extract_relevant_sections lower_latin1
       (u ''SECTION 4: Internship rules require a signed convention.'' @ [10]
          @ u ''SECTION '' @ [10] @ u ''Annex'')
       (u ''what documents do I need for an internship?'') 4000
     = Inl IndexError"
  by (simp add: internship_question_labels)
     (simp add: extract_relevant_sections_def extract_with_labels_def parse_sections_def u_def
        section_label_def split_ws_def strip_def is_space_def truthy_def)

subsection \<open>Two sections longer than the budget\<close>

lemma two_long_sections:
  assumes l1: "l1 = u ''SECTION 1: '' @ replicate 5000 97"
      and l2: "l2 = u ''SECTION 2: '' @ replicate 5000 98"
  shows "parse_sections (l1 @ 10 # l2) = Inr [(u ''SECTION 1'', l1), (u ''SECTION 2'', l2)]"
proof -
  have n1: "10 \<notin> set l1" and n2: "10 \<notin> set l2"
    by (simp_all add: l1 l2 u_def)
  have s: "split_on 10 (l1 @ 10 # l2) = [l1, l2]"
    using split_on_append [OF n1, of l2] split_on_notin [OF n2] by simp
  have p1: "prefix (u ''SECTION '') l1" and p2: "prefix (u ''SECTION '') l2"
    by (simp_all add: l1 l2 u_def)
  have c1: "58 \<in> set l1" and c2: "58 \<in> set l2"
    by (simp_all add: l1 l2 u_def)
  have "l1 = u ''SECTION 1'' @ 58 # (32 # replicate 5000 97)"
    by (simp add: l1 u_def)
  moreover have "58 \<notin> set (u ''SECTION 1'')" by (simp add: u_def)
  ultimately have h1: "hd (split_on 58 l1) = u ''SECTION 1''"
    using split_on_append [of 58 "u ''SECTION 1''" "32 # replicate 5000 97"] by simp
  have "l2 = u ''SECTION 2'' @ 58 # (32 # replicate 5000 98)"
    by (simp add: l2 u_def)
  moreover have "58 \<notin> set (u ''SECTION 2'')" by (simp add: u_def)
  ultimately have h2: "hd (split_on 58 l2) = u ''SECTION 2''"
    using split_on_append [of 58 "u ''SECTION 2''" "32 # replicate 5000 98"] by simp
  have st: "strip (u ''SECTION 1'') = u ''SECTION 1''" "strip (u ''SECTION 2'') = u ''SECTION 2''"
    by (simp_all add: strip_def u_def is_space_def)
  have lab1: "section_label l1 = Inr (u ''SECTION 1'')"
    and lab2: "section_label l2 = Inr (u ''SECTION 2'')"
    by (simp_all add: section_label_def c1 c2 h1 h2 st)
  have ne: "u ''SECTION 1'' \<noteq> []" "u ''SECTION 2'' \<noteq> []"
    by (simp_all add: u_def)
  have sub: "u ''SECTION 1'' \<noteq> u ''SECTION 2''"
    by (simp add: u_def)
  have pl: "parse_lines [l1, l2] None [] [] =
          Inr (Some (u ''SECTION 2''), [l2], [(u ''SECTION 1'', l1)])"
    by (simp add: p1 p2 lab1 lab2 truthy_def ne)
  show ?thesis
    by (simp add: parse_sections_def s pl truthy_def ne sub del: parse_lines.simps)
qed

lemma two_long_sections_extract:
  assumes l1: "l1 = u ''SECTION 1: '' @ replicate 5000 97"
      and l2: "l2 = u ''SECTION 2: '' @ replicate 5000 98"
      and labels: "labels = [u ''SECTION 1'', u ''SECTION 2'']
                   \<or> labels = [u ''SECTION 2'', u ''SECTION 1'']"
  shows "map_sum id length (extract_with_labels labels (l1 @ 10 # l2) 4000) = Inr 8010"
proof -
  have len: "length l1 = 5011" "length l2 = 5011"
    by (simp_all add: l1 l2 u_def)
  have sub: "sublist (u ''SECTION 1'') (u ''SECTION 1'')" "sublist (u ''SECTION 2'') (u ''SECTION 2'')"
    "\<not> sublist (u ''SECTION 1'') (u ''SECTION 2'')" "\<not> sublist (u ''SECTION 2'') (u ''SECTION 1'')"
    by (simp_all add: u_def sublist_code)
  let ?t1 = "slice_to 4000 l1 @ [10] @ u ''...''"
  let ?t2 = "slice_to 4000 l2 @ [10] @ u ''...''"
  have lt: "length ?t1 = 4004" "length ?t2 = 4004"
    by (simp_all add: slice_to_def len u_def)
  let ?sd = "[(u ''SECTION 1'', l1), (u ''SECTION 2'', l2)]"
  have sc1: "\<And>ex. scan_sections (u ''SECTION 1'') 4000 ?sd (ex, 0) = (ex @ [?t1], 0)"
    and sc2: "\<And>ex. scan_sections (u ''SECTION 2'') 4000 ?sd (ex, 0) = (ex @ [?t2], 0)"
    by (simp_all add: sub len Let_def)
  from labels show ?thesis
  proof
    assume "labels = [u ''SECTION 1'', u ''SECTION 2'']"
    then have "extract_with_labels labels (l1 @ 10 # l2) 4000 = Inr (?t1 @ [10, 10] @ ?t2)"
      by (simp add: extract_with_labels_def two_long_sections [OF l1 l2] sc1 sc2 Let_def
          del: scan_sections.simps)
    then show ?thesis using lt by simp
  next
    assume "labels = [u ''SECTION 2'', u ''SECTION 1'']"
    then have "extract_with_labels labels (l1 @ 10 # l2) 4000 = Inr (?t2 @ [10, 10] @ ?t1)"
      by (simp add: extract_with_labels_def two_long_sections [OF l1 l2] sc1 sc2 Let_def
          del: scan_sections.simps)
    then show ?thesis using lt by simp
  qed
qed

lemma two_labels_question:
  "relevant_sections (lower_latin1 (u ''inscription certificat''))
     = [u ''SECTION 1'', u ''SECTION 2'']"
  by (simp add: relevant_sections_def keyword_sections_def lower_latin1_def u_def sublist_code)

text \<open>
  Claim C1, evaluated where it fails. The corpus has two sections of 5011 characters
  each, \<open>SECTION 1\<close> and \<open>SECTION 2\<close>; the question names both; \<open>max_chars\<close> is
  4000, the budget of \<open>ask_rag_question\<close>. The first label's loop appends 4000
  characters of its section and the marker, and leaves with \<open>break\<close>; the loop over
  the labels goes on, \<open>total_chars\<close> is still 0, and the second label's loop appends
  another 4000 characters and the marker. The returned text has 8010 characters, in
  either order of the two labels.
\<close>

theorem two_truncated_sections_exceed_budget:
  "map_sum id length
     (extract_relevant_sections lower_latin1
        ((u ''SECTION 1: '' @ replicate 5000 97) @ 10 # (u ''SECTION 2: '' @ replicate 5000 98))
        (u ''inscription certificat'') 4000) = Inr 8010
   \<and> map_sum id length
     (extract_with_labels [u ''SECTION 2'', u ''SECTION 1'']
        ((u ''SECTION 1: '' @ replicate 5000 97) @ 10 # (u ''SECTION 2: '' @ replicate 5000 98))
        4000) = Inr 8010"
  using two_long_sections_extract [OF refl refl, of "[u ''SECTION 1'', u ''SECTION 2'']"]
    two_long_sections_extract [OF refl refl, of "[u ''SECTION 2'', u ''SECTION 1'']"]
  by (simp only: extract_relevant_sections_def two_labels_question simp_thms)

section \<open>Properties of the model invocation\<close>

lemma attempt_recorded:
  "attempt (recorded client) temperature messages m (s, clock, reqs) =
     (fst (attempt client temperature messages m s),
      (snd (attempt client temperature messages m s), clock, reqs @ [(clock, m)]))"
  by (simp add: attempt_def recorded_def split: prod.splits sum.splits)

lemma length_outcomes [simp]:
  "length (outcomes client temperature messages cands s) = length cands"
  by (induction cands arbitrary: s) (simp_all split: prod.splits)

lemma fallback_loop_recorded:
  fixes client :: "'s client"
  defines "nomodels \<equiv> RuntimeError (u ''No Groq models available.'')"
  shows
  "(\<exists>k < length cands.
        (\<forall>i < k. isl (outcomes client temperature messages cands s ! i))
      \<and> \<not> isl (outcomes client temperature messages cands s ! k)
      \<and> fst (fallback_loop (recorded client) temperature messages cands last_error (s, clock, reqs))
          = outcomes client temperature messages cands s ! k
      \<and> requests (snd (fallback_loop (recorded client) temperature messages cands last_error (s, clock, reqs)))
          = reqs @ map (Pair clock) (take (Suc k) cands))
   \<or> ((\<forall>i < length cands. isl (outcomes client temperature messages cands s ! i))
      \<and> fst (fallback_loop (recorded client) temperature messages cands last_error (s, clock, reqs))
          = (if cands = [] then (case last_error of Some e \<Rightarrow> Inl e | None \<Rightarrow> Inl nomodels)
             else last (outcomes client temperature messages cands s))
      \<and> requests (snd (fallback_loop (recorded client) temperature messages cands last_error (s, clock, reqs)))
          = reqs @ map (Pair clock) cands)"
proof (induction cands arbitrary: s reqs last_error)
  case Nil
  then show ?case
    by (simp add: requests_def nomodels_def split: option.splits)
next
  case (Cons m rest)
  obtain r s' where a: "attempt client temperature messages m s = (r, s')"
    by (cases "attempt client temperature messages m s")
  let ?os' = "outcomes client temperature messages rest s'"
  have os: "outcomes client temperature messages (m # rest) s = r # ?os'"
    by (simp add: a)
  show ?case
  proof (cases r)
    case (Inr answer_text)
    have run: "fallback_loop (recorded client) temperature messages (m # rest) last_error (s, clock, reqs)
               = (Inr answer_text, (s', clock, reqs @ [(clock, m)]))"
      by (simp add: attempt_recorded a Inr)
    have "0 < length (m # rest)" by simp
    moreover have "\<forall>i < 0. isl ((r # ?os') ! i)" by simp
    moreover have "\<not> isl ((r # ?os') ! 0)" by (simp add: Inr)
    moreover have "Inr answer_text = (r # ?os') ! 0" by (simp add: Inr)
    moreover have "requests (s', clock, reqs @ [(clock, m)]) = reqs @ map (Pair clock) (take (Suc 0) (m # rest))"
      by (simp add: requests_def)
    ultimately show ?thesis
      unfolding os run fst_conv snd_conv by blast
  next
    case (Inl e)
    let ?run' = "fallback_loop (recorded client) temperature messages rest (Some e) (s', clock, reqs @ [(clock, m)])"
    have run: "fallback_loop (recorded client) temperature messages (m # rest) last_error (s, clock, reqs)
               = ?run'"
      by (simp add: attempt_recorded a Inl)
    from Cons.IH [where s = s' and reqs = "reqs @ [(clock, m)]" and last_error = "Some e"]
    consider (hit) k where "k < length rest" "\<forall>i < k. isl (?os' ! i)" "\<not> isl (?os' ! k)"
        "fst ?run' = ?os' ! k"
        "requests (snd ?run') = (reqs @ [(clock, m)]) @ map (Pair clock) (take (Suc k) rest)"
      | (miss) "\<forall>i < length rest. isl (?os' ! i)"
        "fst ?run' = (if rest = [] then Inl e else last ?os')"
        "requests (snd ?run') = (reqs @ [(clock, m)]) @ map (Pair clock) rest"
      by auto
    then show ?thesis
    proof cases
      case hit
      have "Suc k < length (m # rest)" using hit(1) by simp
      moreover have "\<forall>i < Suc k. isl ((r # ?os') ! i)"
        using hit(2) Inl by (auto simp: nth_Cons split: nat.splits)
      moreover have "\<not> isl ((r # ?os') ! Suc k)" using hit(3) by simp
      moreover have "fst ?run' = (r # ?os') ! Suc k" using hit(4) by simp
      moreover have "requests (snd ?run') = reqs @ map (Pair clock) (take (Suc (Suc k)) (m # rest))"
        using hit(5) by simp
      ultimately show ?thesis
        unfolding os run by blast
    next
      case miss
      have "\<forall>i < length (m # rest). isl ((r # ?os') ! i)"
        using miss(1) Inl by (auto simp: nth_Cons split: nat.splits)
      moreover have "fst ?run' = (if m # rest = [] then (case last_error of Some e \<Rightarrow> Inl e | None \<Rightarrow> Inl nomodels)
             else last (r # ?os'))"
      proof (cases "rest = []")
        case True
        then show ?thesis using miss(2) Inl by simp
      next
        case False
        then have "?os' \<noteq> []" by (metis length_outcomes length_0_conv)
        then show ?thesis using miss(2) False by simp
      qed
      moreover have "requests (snd ?run') = reqs @ map (Pair clock) (m # rest)"
        using miss(3) by simp
      ultimately show ?thesis
        unfolding os run by blast
    qed
  qed
qed

text \<open>
  Claim C4. The candidates are not empty; the backend records its requests. Let the
  outcomes be what the candidates answer when asked in turn. Either some candidate
  \<open>k\<close> is the first to succeed: then the function returns the text of candidate
  \<open>k\<close>, and the requests it made are one for each of the candidates up to \<open>k\<close>,
  in the order of the list, and none for a later one. Or every candidate fails: then
  the function raises the error of the last candidate, and it made one request for each
  candidate, in the order of the list.
\<close>

theorem fallback_tries_candidates_in_order:
  fixes client :: "'s client"
  assumes "candidates \<noteq> []"
  shows
  "(\<exists>k < length candidates.
        (\<forall>i < k. isl (outcomes client temperature messages candidates s ! i))
      \<and> \<not> isl (outcomes client temperature messages candidates s ! k)
      \<and> fst (chat_completion_with_fallback candidates (recorded client) temperature messages
                (s, clock, reqs))
          = outcomes client temperature messages candidates s ! k
      \<and> requests (snd (chat_completion_with_fallback candidates (recorded client) temperature
                          messages (s, clock, reqs)))
          = reqs @ map (Pair clock) (take (Suc k) candidates))
   \<or> ((\<forall>i < length candidates. isl (outcomes client temperature messages candidates s ! i))
      \<and> fst (chat_completion_with_fallback candidates (recorded client) temperature messages
                (s, clock, reqs))
          = last (outcomes client temperature messages candidates s)
      \<and> requests (snd (chat_completion_with_fallback candidates (recorded client) temperature
                          messages (s, clock, reqs)))
          = reqs @ map (Pair clock) candidates)"
  using fallback_loop_recorded [of candidates client temperature messages s None clock reqs] assms
  unfolding chat_completion_with_fallback_def by simp

lemma first_fails_outcomes:
  "outcomes first_fails QA_TEMPERATURE [] MODEL_CANDIDATES ()
     = [Inl (ApiError (u ''503'')), Inr (u ''B'')]"
  by (simp add: first_fails_def MODEL_CANDIDATES_def attempt_def completion_text_def strip_def
      is_space_def u_def)

theorem fallback_tries_candidates_in_order_witness:
  "fst (chat_completion_with_fallback MODEL_CANDIDATES (recorded first_fails) QA_TEMPERATURE []
          ((), 0, [])) = Inr (u ''B'')
   \<and> requests (snd (chat_completion_with_fallback MODEL_CANDIDATES (recorded first_fails)
                       QA_TEMPERATURE [] ((), 0, [])))
       = [(0, u ''llama-3.1-8b-instant''), (0, u ''llama-3.3-70b-versatile'')]"
proof -
  have ne: "MODEL_CANDIDATES \<noteq> []"
    by (simp add: MODEL_CANDIDATES_def)
  have len: "length MODEL_CANDIDATES = 2"
    by (simp add: MODEL_CANDIDATES_def)
  note t = fallback_tries_candidates_in_order
    [OF ne, of first_fails QA_TEMPERATURE "[]" "()" 0 "[]", unfolded first_fails_outcomes len]
  have two: "\<And>k. k < (2::nat) \<Longrightarrow> k = 0 \<or> k = 1" by auto
  from t show ?thesis
    by (auto simp: MODEL_CANDIDATES_def dest!: two)
qed

section \<open>Properties of the quick replies\<close>

lemma matching_text_nonempty:
  "is_greeting t \<or> is_thanks t \<Longrightarrow> t \<noteq> []"
  by (auto simp: is_greeting_def is_thanks_def find_tokens_def greetings_def thanks_def u_def)

lemma replies_nonempty:
  "greeting_reply l \<noteq> []" "thanks_reply l \<noteq> []"
  by (simp_all add: greeting_reply_def thanks_reply_def greeting_TN_def greeting_EN_def
      greeting_FR_def thanks_TN_def thanks_EN_def thanks_FR_def u_def)

lemma quick_reply_returned:
  assumes "is_greeting (collapse_ws (lower (strip user_question)))
           \<or> is_thanks (collapse_ws (lower (strip user_question)))"
  shows "ask_rag_question lower ui_lang client documents_context user_question lang'
           conversation_history s
         = (Inr (if is_greeting (collapse_ws (lower (strip user_question)))
                 then greeting_reply lang' else thanks_reply lang'), s)"
proof -
  have "collapse_ws (lower (strip user_question)) \<noteq> []"
    using assms by (rule matching_text_nonempty)
  with assms show ?thesis
    by (auto simp: ask_rag_question_def quick_conversation_reply_def Let_def truthy_def
        replies_nonempty)
qed

text \<open>
  Claim C5. Let \<open>qtext\<close> be the question, stripped, lowered and with its white space
  collapsed. It matches the greeting vocabulary when one of its tokens is one of the
  thirteen greeting words or \<open>qtext\<close> itself is one of them, and the thanks
  vocabulary in the same way for the six thanks phrases. When it matches either,
  \<open>ask_rag_question\<close> returns the canned reply written out below: the greeting when
  the greeting vocabulary matches, the thanks otherwise, in Tunisian for the language
  \<open>TN\<close>, in English for \<open>EN\<close> and in French for every other language. The
  state of the backend is the one it started with: no request was made, whatever the
  backend, the corpus and the conversation history are.
\<close>

theorem quick_reply_skips_backend:
  fixes lower :: "pystr \<Rightarrow> pystr" and user_question :: pystr
  defines "qtext \<equiv> collapse_ws (lower (strip user_question))"
  defines "greeted \<equiv>
     list_ex (\<lambda>token. token \<in> set
                [u ''salut'', u ''bonjour'', u ''bonsoir'', u ''hello'', u ''hi'',
                 u ''hey'', u ''salam'', u ''slm'', u ''aslema'', u ''asslema'',
                 u ''ahla'', u ''marhba'', u ''mar7ba''])
       (find_tokens qtext)
     \<or> qtext \<in> set
                [u ''salut'', u ''bonjour'', u ''bonsoir'', u ''hello'', u ''hi'',
                 u ''hey'', u ''salam'', u ''slm'', u ''aslema'', u ''asslema'',
                 u ''ahla'', u ''marhba'', u ''mar7ba'']"
  defines "thanked \<equiv>
     list_ex (\<lambda>token. token \<in> set
                [u ''merci'', u ''thanks'', u ''thank you'',
                 u ''chokran'', u ''choukrane'', u ''bravo''])
       (find_tokens qtext)
     \<or> qtext \<in> set
                [u ''merci'', u ''thanks'', u ''thank you'',
                 u ''chokran'', u ''choukrane'', u ''bravo'']"
  assumes "greeted \<or> thanked"
  shows "ask_rag_question lower ui_lang client documents_context user_question lang'
           conversation_history s
         = (Inr (if greeted then
                   (if lang' = u ''TN'' then
                      u ''Asslema '' @ [128075] @ u '' Ahlan bik! N'' @ [1580, 1605] @ u '' n3awnek fi les infos mta3 l-jam3a. '' @
                      u ''Exemples: '' @ [96] @ u ''nheb na3ref noteti'' @ [96] @ u '', '' @ [96] @ u ''kifech na3mel inscription'' @ [96] @ u '', '' @
                      [96] @ u ''chnowa documents mta3 bourse'' @ [96] @ u '' '' @ [128578]
                    else if lang' = u ''EN'' then
                      u ''Hi '' @ [128075] @ u '' Welcome! I can help with university info. Try: '' @ [96] @ u ''I want to '' @
                      u ''check my grades'' @ [96] @ u '', '' @ [96] @ u ''how to enroll'' @ [96] @ u '', '' @ [96] @ u ''scholarship documents'' @ [96] @ u '' '' @ [128578]
                    else
                      u ''Salut '' @ [128075] @ u '' Je peux t'' @ [8217] @ u ''aider avec les infos universitaires. '' @
                      u ''Exemples: '' @ [96] @ u ''je veux conna'' @ [238] @ u ''tre mes notes'' @ [96] @ u '', '' @ [96] @ u ''comment faire '' @
                      u ''l'' @ [39] @ u ''inscription'' @ [96] @ u '', '' @ [96] @ u ''documents pour la bourse'' @ [96] @ u '' '' @ [128578])
                 else
                   (if lang' = u ''TN'' then
                      u ''3la rassi '' @ [128522] @ u '' Ken theb, n'' @ [1580, 1605] @ u '' n3awnek zeda b inscription, notes, '' @
                      u ''bourse, stage...''
                    else if lang' = u ''EN'' then
                      u ''You'' @ [39] @ u ''re welcome '' @ [128522] @ u '' If you want, I can also help with enrollment, '' @
                      u ''grades, scholarships, or internships.''
                    else
                      u ''Avec plaisir '' @ [128522] @ u '' Si tu veux, je peux aussi t'' @ [8217] @ u ''aider pour '' @
                      u ''inscription, notes, bourse ou stage.'')),
            s)"
proof -
  have g: "greeted = is_greeting (collapse_ws (lower (strip user_question)))"
    unfolding greeted_def qtext_def is_greeting_def greetings_def ..
  have t: "thanked = is_thanks (collapse_ws (lower (strip user_question)))"
    unfolding thanked_def qtext_def is_thanks_def thanks_def ..
  from assms(4) have m: "is_greeting (collapse_ws (lower (strip user_question)))
           \<or> is_thanks (collapse_ws (lower (strip user_question)))"
    unfolding g t .
  from quick_reply_returned [where lower = lower and user_question = user_question, OF m]
  show ?thesis
    unfolding g greeting_reply_def thanks_reply_def greeting_TN_def greeting_EN_def
      greeting_FR_def thanks_TN_def thanks_EN_def thanks_FR_def .
qed

lemma normalised_questions:
  "collapse_ws (lower_latin1 (strip (u ''bonjour''))) = u ''bonjour''"
  "collapse_ws (lower_latin1 (strip (u ''  Hello   there ''))) = u ''hello there''"
  "collapse_ws (lower_latin1 (strip (u ''Aslema''))) = u ''aslema''"
  "collapse_ws (lower_latin1 (strip (u ''Merci beaucoup''))) = u ''merci beaucoup''"
  "collapse_ws (lower_latin1 (strip (u ''Thank you''))) = u ''thank you''"
  "collapse_ws (lower_latin1 (strip (u ''chokran!''))) = u ''chokran!''"
  "collapse_ws (lower_latin1 (strip (u ''Hi, thanks!''))) = u ''hi, thanks!''"
  by (simp_all add: u_def strip_def is_space_def lower_latin1_def)

lemma question_tokens:
  "find_tokens (u ''bonjour'') = [u ''bonjour'']"
  "find_tokens (u ''hello there'') = [u ''hello'', u ''there'']"
  "find_tokens (u ''aslema'') = [u ''aslema'']"
  "find_tokens (u ''merci beaucoup'') = [u ''merci'', u ''beaucoup'']"
  "find_tokens (u ''thank you'') = [u ''thank'', u ''you'']"
  "find_tokens (u ''chokran!'') = [u ''chokran'']"
  "find_tokens (u ''hi, thanks!'') = [u ''hi'', u ''thanks'']"
  by (simp_all add: find_tokens_def is_token_char_def u_def)

theorem quick_reply_skips_backend_witness:
  "ask_rag_question lower_latin1 FR (recorded first_fails) (u ''SECTION 1: Inscription'')
     (u ''bonjour'') (u ''FR'') [] ((), 0, []) = (Inr greeting_FR, ((), 0, []))
   \<and> ask_rag_question lower_latin1 EN (recorded first_fails) (u ''SECTION 1: Inscription'')
     (u ''  Hello   there '') (u ''EN'') [] ((), 0, []) = (Inr greeting_EN, ((), 0, []))
   \<and> ask_rag_question lower_latin1 TN (recorded first_fails) (u ''SECTION 1: Inscription'')
     (u ''Aslema'') (u ''TN'') [] ((), 0, []) = (Inr greeting_TN, ((), 0, []))
   \<and> ask_rag_question lower_latin1 FR (recorded first_fails) (u ''SECTION 1: Inscription'')
     (u ''Merci beaucoup'') (u ''FR'') [] ((), 0, []) = (Inr thanks_FR, ((), 0, []))
   \<and> ask_rag_question lower_latin1 EN (recorded first_fails) (u ''SECTION 1: Inscription'')
     (u ''Thank you'') (u ''EN'') [] ((), 0, []) = (Inr thanks_EN, ((), 0, []))
   \<and> ask_rag_question lower_latin1 TN (recorded first_fails) (u ''SECTION 1: Inscription'')
     (u ''chokran!'') (u ''TN'') [] ((), 0, []) = (Inr thanks_TN, ((), 0, []))
   \<and> ask_rag_question lower_latin1 EN (recorded first_fails) (u ''SECTION 1: Inscription'')
     (u ''Hi, thanks!'') (u ''EN'') [] ((), 0, []) = (Inr greeting_EN, ((), 0, []))"
proof (intro conjI)
  note ev = normalised_questions question_tokens
  show "ask_rag_question lower_latin1 FR (recorded first_fails) (u ''SECTION 1: Inscription'')
     (u ''bonjour'') (u ''FR'') [] ((), 0, []) = (Inr greeting_FR, ((), 0, []))"
    using quick_reply_skips_backend [where lower = lower_latin1 and user_question = "u ''bonjour''"
      and ui_lang = FR and client = "recorded first_fails"
      and documents_context = "u ''SECTION 1: Inscription''" and lang' = "u ''FR''"
      and conversation_history = "[]" and s = "((), 0, [])"]
    unfolding ev greeting_FR_def by (simp add: u_def)
  show "ask_rag_question lower_latin1 EN (recorded first_fails) (u ''SECTION 1: Inscription'')
     (u ''  Hello   there '') (u ''EN'') [] ((), 0, []) = (Inr greeting_EN, ((), 0, []))"
    using quick_reply_skips_backend [where lower = lower_latin1 and user_question = "u ''  Hello   there ''"
      and ui_lang = EN and client = "recorded first_fails"
      and documents_context = "u ''SECTION 1: Inscription''" and lang' = "u ''EN''"
      and conversation_history = "[]" and s = "((), 0, [])"]
    unfolding ev greeting_EN_def by (simp add: u_def)
  show "ask_rag_question lower_latin1 TN (recorded first_fails) (u ''SECTION 1: Inscription'')
     (u ''Aslema'') (u ''TN'') [] ((), 0, []) = (Inr greeting_TN, ((), 0, []))"
    using quick_reply_skips_backend [where lower = lower_latin1 and user_question = "u ''Aslema''"
      and ui_lang = TN and client = "recorded first_fails"
      and documents_context = "u ''SECTION 1: Inscription''" and lang' = "u ''TN''"
      and conversation_history = "[]" and s = "((), 0, [])"]
    unfolding ev greeting_TN_def by (simp add: u_def)
  show "ask_rag_question lower_latin1 FR (recorded first_fails) (u ''SECTION 1: Inscription'')
     (u ''Merci beaucoup'') (u ''FR'') [] ((), 0, []) = (Inr thanks_FR, ((), 0, []))"
    using quick_reply_skips_backend [where lower = lower_latin1 and user_question = "u ''Merci beaucoup''"
      and ui_lang = FR and client = "recorded first_fails"
      and documents_context = "u ''SECTION 1: Inscription''" and lang' = "u ''FR''"
      and conversation_history = "[]" and s = "((), 0, [])"]
    unfolding ev thanks_FR_def by (simp add: u_def)
  show "ask_rag_question lower_latin1 EN (recorded first_fails) (u ''SECTION 1: Inscription'')
     (u ''Thank you'') (u ''EN'') [] ((), 0, []) = (Inr thanks_EN, ((), 0, []))"
    using quick_reply_skips_backend [where lower = lower_latin1 and user_question = "u ''Thank you''"
      and ui_lang = EN and client = "recorded first_fails"
      and documents_context = "u ''SECTION 1: Inscription''" and lang' = "u ''EN''"
      and conversation_history = "[]" and s = "((), 0, [])"]
    unfolding ev thanks_EN_def by (simp add: u_def)
  show "ask_rag_question lower_latin1 TN (recorded first_fails) (u ''SECTION 1: Inscription'')
     (u ''chokran!'') (u ''TN'') [] ((), 0, []) = (Inr thanks_TN, ((), 0, []))"
    using quick_reply_skips_backend [where lower = lower_latin1 and user_question = "u ''chokran!''"
      and ui_lang = TN and client = "recorded first_fails"
      and documents_context = "u ''SECTION 1: Inscription''" and lang' = "u ''TN''"
      and conversation_history = "[]" and s = "((), 0, [])"]
    unfolding ev thanks_TN_def by (simp add: u_def)
  show "ask_rag_question lower_latin1 EN (recorded first_fails) (u ''SECTION 1: Inscription'')
     (u ''Hi, thanks!'') (u ''EN'') [] ((), 0, []) = (Inr greeting_EN, ((), 0, []))"
    using quick_reply_skips_backend [where lower = lower_latin1 and user_question = "u ''Hi, thanks!''"
      and ui_lang = EN and client = "recorded first_fails"
      and documents_context = "u ''SECTION 1: Inscription''" and lang' = "u ''EN''"
      and conversation_history = "[]" and s = "((), 0, [])"]
    unfolding ev greeting_EN_def by (simp add: u_def)
qed

section \<open>Properties of the question handler\<close>

lemma extract_returns_when_parsed:
  "parse_sections documents_context = Inr sections_dict \<Longrightarrow>
   \<exists>ctx. extract_relevant_sections lower documents_context user_question max_chars = Inr ctx"
  by (simp add: extract_relevant_sections_def extract_with_labels_def Let_def)

lemma always_answers_first:
  "chat_completion_with_fallback MODEL_CANDIDATES (recorded always_answers) temperature messages
     ((), clock, reqs)
   = (Inr (u ''ok''), ((), clock, reqs @ [(clock, u ''llama-3.1-8b-instant'')]))"
  by (simp add: chat_completion_with_fallback_def MODEL_CANDIDATES_def attempt_def recorded_def
      always_answers_def completion_text_def strip_def is_space_def u_def)

lemma handle_question_asks_backend:
  assumes "question \<noteq> []" and "documents_context \<noteq> []"
    and "quick_conversation_reply lower (strip question) (lang_code (language s)) = None"
    and "parse_sections documents_context = Inr sections_dict"
  shows "handle_question lower (recorded always_answers) documents_context question now_iso io_ok
           (s, ((), clock, reqs))
         = (add_to_chat_history now_iso io_ok (strip question) (u ''ok'') s,
            ((), clock, reqs @ [(clock, u ''llama-3.1-8b-instant'')]))"
proof -
  obtain ctx where ctx: "extract_relevant_sections lower documents_context (strip question) 4000 = Inr ctx"
    using extract_returns_when_parsed [OF assms(4)] by blast
  have ok: "u ''ok'' \<noteq> []" by (simp add: u_def)
  show ?thesis
    by (simp add: handle_question_def ask_rag_question_def assms(1,2,3) truthy_def ctx Let_def
        always_answers_first ok)
qed

lemma add_to_chat_history_fields:
  "language (add_to_chat_history now_iso io_ok q a s) = language s"
  "chat_history (add_to_chat_history now_iso io_ok q a s)
     = chat_history s @ [\<lparr>e_timestamp = now_iso, e_conversation_id = conversation_id s,
                           e_question = q, e_answer = a\<rparr>]"
  by (simp_all add: add_to_chat_history_def save_chat_history_def Let_def)

lemma ask_all_requests:
  assumes "documents_context \<noteq> []"
    and "parse_sections documents_context = Inr sections_dict"
    and "\<forall>x \<in> set qs. snd (snd x) \<noteq> []
           \<and> quick_conversation_reply lower (strip (snd (snd x))) (lang_code (language s)) = None"
  shows "requests (snd (ask_all lower always_answers documents_context io_ok qs (s, ((), clock, reqs))))
           = reqs @ map (\<lambda>x. (fst x, u ''llama-3.1-8b-instant'')) qs
         \<and> length (chat_history (fst (ask_all lower always_answers documents_context io_ok qs
                (s, ((), clock, reqs)))))
           = length (chat_history s) + length qs"
  using assms(3)
proof (induction qs arbitrary: s clock reqs)
  case Nil
  then show ?case by (simp add: requests_def)
next
  case (Cons x qs)
  obtain t now_iso q where x: "x = (t, now_iso, q)" by (cases x)
  let ?s' = "add_to_chat_history now_iso io_ok (strip q) (u ''ok'') s"
  have step: "handle_question lower (recorded always_answers) documents_context q now_iso io_ok
           (s, at_time t ((), clock, reqs))
         = (?s', ((), t, reqs @ [(t, u ''llama-3.1-8b-instant'')]))"
    using Cons.prems handle_question_asks_backend [OF _ assms(1) _ assms(2), of q lower s now_iso io_ok t reqs]
    by (simp add: x at_time_def)
  have pre: "\<forall>x \<in> set qs. snd (snd x) \<noteq> []
           \<and> quick_conversation_reply lower (strip (snd (snd x))) (lang_code (language ?s')) = None"
    using Cons.prems by (simp add: add_to_chat_history_fields)
  show ?case
    using Cons.IH [OF pre, of t "reqs @ [(t, u ''llama-3.1-8b-instant'')]"]
    by (simp add: x step add_to_chat_history_fields)
qed

lemma exam_question_not_quick: "quick_conversation_reply lower_latin1 (strip (u ''exam dates'')) (lang_code FR) = None"
  by (simp add: quick_conversation_reply_def strip_def is_space_def u_def lower_latin1_def
      is_greeting_def is_thanks_def find_tokens_def is_token_char_def greetings_def thanks_def)

lemma exam_corpus_sections: "parse_sections (u ''SECTION 6: Exams are in June.'')
   = Inr [(u ''SECTION 6'', u ''SECTION 6: Exams are in June.'')]"
  by (simp add: parse_sections_def section_label_def strip_def is_space_def u_def truthy_def)

lemma spam_question_not_quick: "quick_conversation_reply lower_latin1 (strip (u ''aaaaaaaaaaaa'')) (lang_code FR) = None"
  by (simp add: quick_conversation_reply_def strip_def is_space_def u_def lower_latin1_def
      is_greeting_def is_thanks_def find_tokens_def is_token_char_def greetings_def thanks_def)

lemma replicate_ten:
  "replicate 10 c = [c, c, c, c, c, c, c, c, c, c]"
  by (simp add: numeral_eq_Suc)

lemma spam_question_invalid: "validate_question (u ''aaaaaaaaaaaa'') = False"
  by (simp add: validate_question_def u_def strip_def is_space_def MAX_QUESTION_LENGTH_def
      replicate_ten)


text \<open>
  Claim C2, evaluated where it fails. One session asks the question \<open>exam dates\<close>
  eleven times, at the instants 0 to 10, with a backend that answers every request. The
  handler passes each question to \<open>ask_rag_question\<close>; no call goes through
  \<open>rate_limit\<close>. The backend receives eleven requests, all of them less than
  60 time units before the last: more than \<open>RATE_LIMIT_REQUESTS\<close> in one window.
\<close>

theorem eleven_requests_in_one_window:
  "requests (snd (ask_all lower_latin1 always_answers (u ''SECTION 6: Exams are in June.'') True
      (map (\<lambda>t. (t, u ''2026-01-01T00:00:00'', u ''exam dates''))
         [0, 1, 2, 3, 4, 5, 6, 7, 8, 9, 10])
      (init_session_state (u ''sid'') [] [] None (u ''20260101_000000''), ((), 0, []))))
   = map (\<lambda>t. (t, u ''llama-3.1-8b-instant'')) [0, 1, 2, 3, 4, 5, 6, 7, 8, 9, 10]
   \<and> RATE_LIMIT_REQUESTS
       < length (filter (\<lambda>r. 10 - fst r < RATE_LIMIT_WINDOW_SECONDS)
           (map (\<lambda>t. (t, u ''llama-3.1-8b-instant'')) [0, 1, 2, 3, 4, 5, 6, 7, 8, 9, 10]))"
proof -
  let ?s = "init_session_state (u ''sid'') [] [] None (u ''20260101_000000'')"
  let ?qs = "map (\<lambda>t. (t, u ''2026-01-01T00:00:00'', u ''exam dates''))
         [0, 1, 2, 3, 4, 5, 6, 7, 8, 9, 10 :: real]"
  have d: "u ''SECTION 6: Exams are in June.'' \<noteq> []"
    by (simp add: u_def)
  have l: "language ?s = FR"
    by (simp add: init_session_state_def)
  have ne: "u ''exam dates'' \<noteq> []"
    by (simp add: u_def)
  have pre: "\<forall>x \<in> set ?qs. snd (snd x) \<noteq> []
           \<and> quick_conversation_reply lower_latin1 (strip (snd (snd x))) (lang_code (language ?s)) = None"
    unfolding l using ne exam_question_not_quick by simp
  have "requests (snd (ask_all lower_latin1 always_answers (u ''SECTION 6: Exams are in June.'')
            True ?qs (?s, ((), 0, []))))
        = [] @ map (\<lambda>x. (fst x, u ''llama-3.1-8b-instant'')) ?qs"
    using ask_all_requests [OF d exam_corpus_sections pre, of True 0 "[]"] by blast
  then show ?thesis
    by (simp add: RATE_LIMIT_REQUESTS_def RATE_LIMIT_WINDOW_SECONDS_def)
qed

text \<open>
  Claim C3, evaluated where it fails. The question is the letter \<open>a\<close> twelve times:
  \<open>validate_question\<close> rejects it, as a character repeated eleven times or more. The
  handler never calls \<open>validate_question\<close>: the question goes to the backend, which
  receives one request, and the answer is recorded as a turn of the history.
\<close>

theorem spam_question_reaches_backend:
  "validate_question (u ''aaaaaaaaaaaa'') = False
   \<and> handle_question lower_latin1 (recorded always_answers) (u ''SECTION 6: Exams are in June.'')
       (u ''aaaaaaaaaaaa'') (u ''2026-01-01T00:00:00'') True
       (init_session_state (u ''sid'') [] [] None (u ''20260101_000000''), ((), 0, []))
     = (add_to_chat_history (u ''2026-01-01T00:00:00'') True (u ''aaaaaaaaaaaa'') (u ''ok'')
          (init_session_state (u ''sid'') [] [] None (u ''20260101_000000'')),
        ((), 0, [(0, u ''llama-3.1-8b-instant'')]))
   \<and> chat_history
        (add_to_chat_history (u ''2026-01-01T00:00:00'') True (u ''aaaaaaaaaaaa'') (u ''ok'')
          (init_session_state (u ''sid'') [] [] None (u ''20260101_000000'')))
     = [\<lparr>e_timestamp = u ''2026-01-01T00:00:00'', e_conversation_id = u ''20260101_000000'',
         e_question = u ''aaaaaaaaaaaa'', e_answer = u ''ok''\<rparr>]"
proof -
  let ?s = "init_session_state (u ''sid'') [] [] None (u ''20260101_000000'')"
  have d: "u ''SECTION 6: Exams are in June.'' \<noteq> []" and q: "u ''aaaaaaaaaaaa'' \<noteq> []"
    by (simp_all add: u_def)
  have l: "language ?s = FR"
    by (simp add: init_session_state_def)
  have st: "strip (u ''aaaaaaaaaaaa'') = u ''aaaaaaaaaaaa''"
    by (simp add: strip_def is_space_def u_def)
  have nq: "quick_conversation_reply lower_latin1 (strip (u ''aaaaaaaaaaaa''))
              (lang_code (language ?s)) = None"
    unfolding l by (rule spam_question_not_quick)
  have h: "handle_question lower_latin1 (recorded always_answers) (u ''SECTION 6: Exams are in June.'')
       (u ''aaaaaaaaaaaa'') (u ''2026-01-01T00:00:00'') True (?s, ((), 0, []))
     = (add_to_chat_history (u ''2026-01-01T00:00:00'') True (u ''aaaaaaaaaaaa'') (u ''ok'') ?s,
        ((), 0, [(0, u ''llama-3.1-8b-instant'')]))"
    using handle_question_asks_backend [OF q d nq exam_corpus_sections,
        of "u ''2026-01-01T00:00:00''" True 0 "[]"]
    by (simp add: st)
  have c: "chat_history
        (add_to_chat_history (u ''2026-01-01T00:00:00'') True (u ''aaaaaaaaaaaa'') (u ''ok'') ?s)
     = [\<lparr>e_timestamp = u ''2026-01-01T00:00:00'', e_conversation_id = u ''20260101_000000'',
         e_question = u ''aaaaaaaaaaaa'', e_answer = u ''ok''\<rparr>]"
    by (simp add: add_to_chat_history_fields init_session_state_def)
  from spam_question_invalid h c show ?thesis
    by blast
qed

end
